theory Spec2Isabelle
  imports Complex_Main
begin

section \<open>Python and numpy values\<close>

text \<open>
  The operators of \<^verbatim>\<open>tdgl/finite_volume/matrices.py\<close> are assembled from numpy arrays.
  A one-dimensional array is a list, an array of shape (K, 2) a list of pairs.
  Floating-point numbers are taken as exact reals, complex floating-point numbers as
  exact complex numbers. Site and edge indices are natural numbers.
  Every exception the assembly can raise is a value of type \<open>error\<close>.
\<close>

datatype error = IndexError | TypeError | ValueError string

text \<open>
  A builder attribute that holds either \<^verbatim>\<open>None\<close> or an array. The third case is the
  zero-dimensional object array \<^verbatim>\<open>array(None, dtype=object)\<close>, which is what
  \<^verbatim>\<open>np.copy(None)\<close> returns.
\<close>

datatype 'a pyarr = PyNone | NdArray 'a | ZeroDimNone

definition is_None :: "'a pyarr \<Rightarrow> bool" where
  "is_None v = (case v of PyNone \<Rightarrow> True | NdArray a \<Rightarrow> False | ZeroDimNone \<Rightarrow> False)"

fun np_copy :: "'a pyarr \<Rightarrow> 'a pyarr" where
  "np_copy PyNone = ZeroDimNone"
| "np_copy (NdArray a) = NdArray a"
| "np_copy ZeroDimNone = ZeroDimNone"

definition ebind :: "error + 'a \<Rightarrow> ('a \<Rightarrow> error + 'b) \<Rightarrow> error + 'b" where
  "ebind r f = (case r of Inl e \<Rightarrow> Inl e | Inr v \<Rightarrow> f v)"

text \<open>
  An elementwise binary operation on two one-dimensional arrays, with numpy's
  broadcasting: equal lengths, or one operand of length one, else a ValueError.
\<close>

definition np_binop :: "('a \<Rightarrow> 'b \<Rightarrow> 'c) \<Rightarrow> 'a list \<Rightarrow> 'b list \<Rightarrow> error + 'c list" where
  "np_binop f xs ys =
     (if length xs = length ys then Inr (map2 f xs ys)
      else if length xs = 1 then Inr (map (f (hd xs)) ys)
      else if length ys = 1 then Inr (map (\<lambda>a. f a (hd ys)) xs)
      else Inl (ValueError ''operands could not be broadcast together''))"

text \<open>Indexing with an integer array, \<^verbatim>\<open>a[idx]\<close>: an index past the end raises.\<close>

definition take_idx :: "'a list \<Rightarrow> nat list \<Rightarrow> error + 'a list" where
  "take_idx xs idx =
     (if list_all (\<lambda>i. i < length xs) idx then Inr (map (\<lambda>i. xs ! i) idx)
      else Inl IndexError)"

text \<open>Indexing with a boolean mask, \<^verbatim>\<open>a[mask]\<close>: the mask must be as long as the array.\<close>

definition mask_select :: "'a list \<Rightarrow> bool list \<Rightarrow> error + 'a list" where
  "mask_select xs msk =
     (if length msk = length xs then Inr (map fst (filter snd (zip xs msk)))
      else Inl IndexError)"

text \<open>
  \<^verbatim>\<open>np.isin(rows, fixed_sites, invert=True)\<close>. Against the zero-dimensional object array
  holding \<^verbatim>\<open>None\<close> no integer is a member.
\<close>

fun isin_invert :: "nat list \<Rightarrow> nat list pyarr \<Rightarrow> bool list" where
  "isin_invert rows (NdArray fs) = map (\<lambda>r. r \<notin> set fs) rows"
| "isin_invert rows ZeroDimNone = map (\<lambda>r. True) rows"
| "isin_invert rows PyNone = map (\<lambda>r. True) rows"

text \<open>\<^verbatim>\<open>np.concatenate([a, fixed_sites])\<close> with a one-dimensional \<^verbatim>\<open>a\<close>.\<close>

fun concat_fixed :: "'a list \<Rightarrow> 'a list pyarr \<Rightarrow> error + 'a list" where
  "concat_fixed a (NdArray fs) = Inr (a @ fs)"
| "concat_fixed a ZeroDimNone = Inl (ValueError ''zero-dimensional arrays cannot be concatenated'')"
| "concat_fixed a PyNone = Inl (ValueError ''zero-dimensional arrays cannot be concatenated'')"

text \<open>
  \<^verbatim>\<open>fixed_sites_eigenvalues * np.ones(len(fixed_sites))\<close>; \<^verbatim>\<open>len\<close> of a value that is
  not a sized array is a TypeError.
\<close>

fun fixed_diagonal :: "real \<Rightarrow> nat list pyarr \<Rightarrow> error + complex list" where
  "fixed_diagonal ev (NdArray fs) = Inr (replicate (length fs) (complex_of_real ev))"
| "fixed_diagonal ev ZeroDimNone = Inl TypeError"
| "fixed_diagonal ev PyNone = Inl TypeError"

section \<open>Sparse matrices\<close>

text \<open>
  A scipy sparse matrix built from coordinate triplets. The matrix entry at (i, j) is the
  sum of the values of all triplets at that position, which is how scipy treats
  duplicates when it converts to CSR or CSC.
\<close>

record sparse =
  nrows :: nat
  ncols :: nat
  triplets :: "(nat \<times> nat \<times> complex) list"

text \<open>
  \<^verbatim>\<open>sp.csr_matrix((values, (rows, cols)), shape=(n, m))\<close> and the same call of
  \<^verbatim>\<open>sp.csc_matrix\<close>: the three arrays must have one length and every index must lie
  inside the shape.
\<close>

definition coo_matrix ::
  "complex list \<Rightarrow> nat list \<Rightarrow> nat list \<Rightarrow> nat \<Rightarrow> nat \<Rightarrow> error + sparse" where
  "coo_matrix vals rows cols n m =
     (if length rows \<noteq> length vals \<or> length cols \<noteq> length vals
      then Inl (ValueError ''row, column, and data array must all be the same length'')
      else if \<not> list_all (\<lambda>r. r < n) rows
      then Inl (ValueError ''row index exceeds matrix dimensions'')
      else if \<not> list_all (\<lambda>c. c < m) cols
      then Inl (ValueError ''column index exceeds matrix dimensions'')
      else Inr \<lparr>nrows = n, ncols = m, triplets = zip rows (zip cols vals)\<rparr>)"

definition entry :: "sparse \<Rightarrow> nat \<Rightarrow> nat \<Rightarrow> complex" where
  "entry A i j =
     sum_list (map (\<lambda>t. snd (snd t)) (filter (\<lambda>t. fst t = i \<and> fst (snd t) = j) (triplets A)))"

text \<open>The product of a sparse matrix with a dense vector, \<^verbatim>\<open>A @ v\<close>.\<close>

definition row_dot :: "sparse \<Rightarrow> complex list \<Rightarrow> nat \<Rightarrow> complex" where
  "row_dot A v i =
     sum_list (map (\<lambda>t. snd (snd t) * v ! fst (snd t)) (filter (\<lambda>t. fst t = i) (triplets A)))"

definition matvec :: "sparse \<Rightarrow> complex list \<Rightarrow> error + complex list" where
  "matvec A v =
     (if length v = ncols A then Inr (map (row_dot A v) [0..<nrows A])
      else Inl (ValueError ''dimension mismatch''))"

text \<open>
  \<^verbatim>\<open>A = A.tolil(); A[fixed_sites, :] = 0\<close>: the rows named by the index array are set
  to zero. An index outside the matrix raises, and so does the zero-dimensional object
  array used as an index.
\<close>

fun zero_rows :: "sparse \<Rightarrow> nat list pyarr \<Rightarrow> error + sparse" where
  "zero_rows A (NdArray fs) =
     (if list_all (\<lambda>f. f < nrows A) fs
      then Inr (A\<lparr>triplets := filter (\<lambda>t. fst t \<notin> set fs) (triplets A)\<rparr>)
      else Inl IndexError)"
| "zero_rows A ZeroDimNone = Inl IndexError"
| "zero_rows A PyNone = Inl IndexError"

section \<open>The mesh\<close>

text \<open>
  Of the classes \<^verbatim>\<open>Mesh\<close> and \<^verbatim>\<open>EdgeMesh\<close> the assembly reads attributes only:
  \<^verbatim>\<open>mesh.x\<close> (one coordinate per site, of which only the number is used; the field
  \<open>mesh_x\<close>), \<^verbatim>\<open>mesh.areas\<close>, and the edge arrays of \<^verbatim>\<open>mesh.edge_mesh\<close>. An edge is
  the pair of its endpoints 0 and 1.
\<close>

record edge_mesh =
  edges :: "(nat \<times> nat) list"
  edge_lengths :: "real list"
  dual_edge_lengths :: "real list"
  directions :: "(real \<times> real) list"
  boundary_edge_indices :: "nat list"

record mesh =
  mesh_x :: "real list"
  areas :: "real list"
  edge_mesh :: edge_mesh

section \<open>Link variables\<close>

text \<open>
  Lines 53 to 58 of \<^verbatim>\<open>build_gradient\<close> and lines 95 to 100 of \<^verbatim>\<open>build_laplacian\<close>:
  \<^verbatim>\<open>np.ones(len(weights))\<close> when the link exponents are \<^verbatim>\<open>None\<close>, otherwise
  \<^verbatim>\<open>np.exp(-1j * (np.asarray(link_exponents) * edge_mesh.directions).sum(axis=1))\<close>.
  The product of the two (K, 2) and (M, 2) arrays broadcasts along the first axis.
  With the object array holding \<^verbatim>\<open>None\<close> the product is \<^verbatim>\<open>None * float\<close>, a TypeError.
  Only when there is no edge direction at all is no product formed: the result is then an
  empty array of dtype object, which the sparse constructors refuse later on
  (\<open>object_dtype\<close> below).
\<close>

definition link_variable_weights ::
  "edge_mesh \<Rightarrow> (real \<times> real) list pyarr \<Rightarrow> nat \<Rightarrow> error + complex list" where
  "link_variable_weights em link_exponents n =
     (case link_exponents of
        PyNone \<Rightarrow> Inr (replicate n 1)
      | NdArray le \<Rightarrow>
          ebind (np_binop (\<lambda>a d. (fst a * fst d, snd a * snd d)) le (directions em))
            (\<lambda>prods. Inr (map (\<lambda>p. exp (- \<i> * complex_of_real (fst p + snd p))) prods))
      | ZeroDimNone \<Rightarrow> (if directions em = [] then Inr [] else Inl TypeError))"

text \<open>
  Whether the link weights, and with them the values handed to \<^verbatim>\<open>sp.csr_matrix\<close> or
  \<^verbatim>\<open>sp.csc_matrix\<close>, have dtype object. The constructors raise a ValueError for such
  values.
\<close>

definition object_dtype :: "'a pyarr \<Rightarrow> bool" where
  "object_dtype v = (case v of PyNone \<Rightarrow> False | NdArray a \<Rightarrow> False | ZeroDimNone \<Rightarrow> True)"

definition sparse_values ::
  "'a pyarr \<Rightarrow> complex list \<Rightarrow> nat list \<Rightarrow> nat list \<Rightarrow> nat \<Rightarrow> nat \<Rightarrow> error + sparse" where
  "sparse_values link_exponents vals rows cols n m =
     (if object_dtype link_exponents
      then Inl (ValueError ''object dtype is not supported by sparse matrices'')
      else coo_matrix vals rows cols n m)"

section \<open>The four operators\<close>

definition build_divergence :: "mesh \<Rightarrow> error + sparse" where
  "build_divergence m =
     (let em = edge_mesh m;
          edge_indices = [0..<length (edges em)];
          weights = dual_edge_lengths em;
          edges0 = map fst (edges em);
          edges1 = map snd (edges em);
          rows = edges0 @ edges1;
          cols = edge_indices @ edge_indices
      in ebind (take_idx (areas m) edges0) (\<lambda>areas0.
         ebind (np_binop (/) weights areas0) (\<lambda>v0.
         ebind (take_idx (areas m) edges1) (\<lambda>areas1.
         ebind (np_binop (/) (map uminus weights) areas1) (\<lambda>v1.
         coo_matrix (map complex_of_real (v0 @ v1)) rows cols
           (length (mesh_x m)) (length (edges em)))))))"

definition build_gradient :: "mesh \<Rightarrow> (real \<times> real) list pyarr \<Rightarrow> error + sparse" where
  "build_gradient m link_exponents =
     (let em = edge_mesh m;
          edge_indices = [0..<length (edges em)];
          weights = map (\<lambda>l. 1 / l) (edge_lengths em)
      in ebind (link_variable_weights em link_exponents (length weights)) (\<lambda>lvw.
         let rows = edge_indices @ edge_indices;
             cols = map snd (edges em) @ map fst (edges em)
         in ebind (np_binop (\<lambda>u w. u * complex_of_real w) lvw weights) (\<lambda>v0.
            sparse_values link_exponents
              (v0 @ map (\<lambda>w. complex_of_real (- w)) weights) rows cols
              (length (edges em)) (length (mesh_x m)))))"

text \<open>
  Lines 93 to 114 of \<^verbatim>\<open>build_laplacian\<close>: the rows, columns and values of the four
  blocks, before any row is removed.
\<close>

definition laplacian_rows :: "mesh \<Rightarrow> nat list" where
  "laplacian_rows m =
     (let edges0 = map fst (edges (edge_mesh m)); edges1 = map snd (edges (edge_mesh m))
      in edges0 @ edges1 @ edges0 @ edges1)"

definition laplacian_cols :: "mesh \<Rightarrow> nat list" where
  "laplacian_cols m =
     (let edges0 = map fst (edges (edge_mesh m)); edges1 = map snd (edges (edge_mesh m))
      in edges1 @ edges0 @ edges0 @ edges1)"

definition laplacian_values :: "mesh \<Rightarrow> (real \<times> real) list pyarr \<Rightarrow> error + complex list" where
  "laplacian_values m link_exponents =
     (let em = edge_mesh m
      in ebind (np_binop (/) (dual_edge_lengths em) (edge_lengths em)) (\<lambda>weights.
         ebind (link_variable_weights em link_exponents (length weights)) (\<lambda>lvw.
         ebind (take_idx (areas m) (map fst (edges em))) (\<lambda>areas0.
         ebind (take_idx (areas m) (map snd (edges em))) (\<lambda>areas1.
         ebind (np_binop (\<lambda>w u. complex_of_real w * u) weights lvw) (\<lambda>wl.
         ebind (np_binop (\<lambda>c a. c / complex_of_real a) wl areas0) (\<lambda>v0.
         ebind (np_binop (\<lambda>w u. complex_of_real w * u) weights (map cnj lvw)) (\<lambda>wc.
         ebind (np_binop (\<lambda>c a. c / complex_of_real a) wc areas1) (\<lambda>v1.
         ebind (np_binop (/) (map uminus weights) areas0) (\<lambda>v2.
         ebind (np_binop (/) (map uminus weights) areas1) (\<lambda>v3.
         Inr (v0 @ v1 @ map complex_of_real v2 @ map complex_of_real v3))))))))))))"

definition build_laplacian ::
  "mesh \<Rightarrow> (real \<times> real) list pyarr \<Rightarrow> nat list pyarr \<Rightarrow> bool list option \<Rightarrow> real
     \<Rightarrow> error + (sparse \<times> bool list)" where
  "build_laplacian m link_exponents fixed_sites0 free_rows0 fixed_sites_eigenvalues =
     (let fixed_sites = (if is_None fixed_sites0 then NdArray [] else fixed_sites0)
      in ebind (laplacian_values m link_exponents) (\<lambda>vals.
         let rows = laplacian_rows m;
             cols = laplacian_cols m;
             free_rows = (case free_rows0 of None \<Rightarrow> isin_invert rows fixed_sites
                          | Some msk \<Rightarrow> msk)
         in ebind (mask_select rows free_rows) (\<lambda>rows1.
            ebind (mask_select cols free_rows) (\<lambda>cols1.
            ebind (mask_select vals free_rows) (\<lambda>vals1.
            ebind (concat_fixed rows1 fixed_sites) (\<lambda>rows2.
            ebind (concat_fixed cols1 fixed_sites) (\<lambda>cols2.
            ebind (fixed_diagonal fixed_sites_eigenvalues fixed_sites) (\<lambda>diag.
            ebind (sparse_values link_exponents (vals1 @ diag) rows2 cols2
                     (length (mesh_x m)) (length (mesh_x m))) (\<lambda>laplacian.
            Inr (laplacian, free_rows))))))))))"

text \<open>
  Lines 145 to 164 of \<^verbatim>\<open>build_neumann_boundary_laplacian\<close>: the matrix before the rows of
  the fixed sites are set to zero.
\<close>

definition neumann_assembly :: "mesh \<Rightarrow> error + sparse" where
  "neumann_assembly m =
     (let em = edge_mesh m;
          boundary_index = [0..<length (boundary_edge_indices em)]
      in ebind (take_idx (edges em) (boundary_edge_indices em)) (\<lambda>boundary_edges.
         ebind (take_idx (edge_lengths em) (boundary_edge_indices em)) (\<lambda>boundary_edges_length.
         let rows = map fst boundary_edges @ map snd boundary_edges;
             cols = boundary_index @ boundary_index
         in ebind (take_idx (areas m) (map fst boundary_edges)) (\<lambda>areas0.
            ebind (np_binop (/) boundary_edges_length (map (\<lambda>a. 2 * a) areas0)) (\<lambda>v0.
            ebind (take_idx (areas m) (map snd boundary_edges)) (\<lambda>areas1.
            ebind (np_binop (/) boundary_edges_length (map (\<lambda>a. 2 * a) areas1)) (\<lambda>v1.
            coo_matrix (map complex_of_real (v0 @ v1)) rows cols
              (length (mesh_x m)) (length boundary_index))))))))"

definition build_neumann_boundary_laplacian :: "mesh \<Rightarrow> nat list pyarr \<Rightarrow> error + sparse" where
  "build_neumann_boundary_laplacian m fixed_sites =
     ebind (neumann_assembly m) (\<lambda>neumann_laplacian.
       if \<not> is_None fixed_sites then zero_rows neumann_laplacian fixed_sites
       else Inr neumann_laplacian)"

section \<open>The matrix builder\<close>

text \<open>
  Modelled from the spec: the enumeration \<^verbatim>\<open>MatrixType\<close> of \<^verbatim>\<open>tdgl/enums.py\<close>, with
  the four operator kinds the spec lists. \<open>OtherValue r\<close> stands for any other Python
  value passed as \<^verbatim>\<open>matrix_type\<close>, \<open>r\<close> being its \<^verbatim>\<open>repr\<close>.
\<close>

datatype matrix_type =
  LAPLACIAN | NEUMANN_BOUNDARY_LAPLACIAN | DIVERGENCE | GRADIENT | OtherValue string

text \<open>
  The attributes of a \<^verbatim>\<open>MatrixBuilder\<close>; \<open>mesh_of\<close> is its attribute \<^verbatim>\<open>mesh\<close>.
  \<open>MatrixBuilder m\<close> is the state after \<^verbatim>\<open>__init__\<close>.
\<close>

record matrix_builder =
  mesh_of :: mesh
  fixed_sites :: "nat list pyarr"
  fixed_sites_eigenvalue :: real
  link_exponents :: "(real \<times> real) list pyarr"

definition MatrixBuilder :: "mesh \<Rightarrow> matrix_builder" where
  "MatrixBuilder m =
     \<lparr>mesh_of = m, fixed_sites = PyNone, fixed_sites_eigenvalue = 1, link_exponents = PyNone\<rparr>"

definition with_dirichlet_boundary :: "matrix_builder \<Rightarrow> nat list \<Rightarrow> real \<Rightarrow> matrix_builder" where
  "with_dirichlet_boundary b sites ev =
     b\<lparr>fixed_sites := NdArray sites, fixed_sites_eigenvalue := ev\<rparr>"

definition with_link_exponents :: "matrix_builder \<Rightarrow> (real \<times> real) list \<Rightarrow> matrix_builder" where
  "with_link_exponents b le = b\<lparr>link_exponents := NdArray le\<rparr>"

text \<open>
  \<^verbatim>\<open>build\<close> returns the pair of \<^verbatim>\<open>build_laplacian\<close> for a Laplacian and a single matrix
  for the other kinds.
\<close>

datatype built = LaplacianAndMask sparse "bool list" | Matrix sparse

definition unknown_matrix_type :: "string \<Rightarrow> error" where
  "unknown_matrix_type r = ValueError (''Unknown matrix type: '' @ r @ ''.'')"

fun build :: "matrix_builder \<Rightarrow> matrix_type \<Rightarrow> bool list option \<Rightarrow> error + built" where
  "build b LAPLACIAN free_rows =
     ebind (build_laplacian (mesh_of b) (link_exponents b) (fixed_sites b) free_rows
              (fixed_sites_eigenvalue b))
       (\<lambda>r. Inr (LaplacianAndMask (fst r) (snd r)))"
| "build b NEUMANN_BOUNDARY_LAPLACIAN free_rows =
     ebind (build_neumann_boundary_laplacian (mesh_of b) (fixed_sites b)) (\<lambda>A. Inr (Matrix A))"
| "build b DIVERGENCE free_rows =
     ebind (build_divergence (mesh_of b)) (\<lambda>A. Inr (Matrix A))"
| "build b GRADIENT free_rows =
     ebind (build_gradient (mesh_of b) (link_exponents b)) (\<lambda>A. Inr (Matrix A))"
| "build b (OtherValue r) free_rows = Inl (unknown_matrix_type r)"

definition clone :: "matrix_builder \<Rightarrow> matrix_builder" where
  "clone b =
     \<lparr>mesh_of = mesh_of b,
      fixed_sites = np_copy (fixed_sites b),
      fixed_sites_eigenvalue = fixed_sites_eigenvalue b,
      link_exponents = np_copy (link_exponents b)\<rparr>"

section \<open>Well-formed inputs and closed forms\<close>

text \<open>
  A mesh is well formed when it has one area per site, one length, one dual length and one
  direction per edge, every edge joins two sites of the mesh, and every boundary edge index
  names an edge. The assembly checks none of this.
\<close>

definition mesh_wf :: "mesh \<Rightarrow> bool" where
  "mesh_wf m =
     (length (areas m) = length (mesh_x m)
      \<and> length (edge_lengths (edge_mesh m)) = length (edges (edge_mesh m))
      \<and> length (dual_edge_lengths (edge_mesh m)) = length (edges (edge_mesh m))
      \<and> length (directions (edge_mesh m)) = length (edges (edge_mesh m))
      \<and> list_all (\<lambda>e. fst e < length (mesh_x m) \<and> snd e < length (mesh_x m))
           (edges (edge_mesh m))
      \<and> list_all (\<lambda>k. k < length (edges (edge_mesh m)))
           (boundary_edge_indices (edge_mesh m)))"

text \<open>
  Link exponents are well formed when they are \<^verbatim>\<open>None\<close> or hold one pair per edge.
\<close>

definition link_exponents_ok :: "mesh \<Rightarrow> (real \<times> real) list pyarr \<Rightarrow> bool" where
  "link_exponents_ok m le =
     (case le of PyNone \<Rightarrow> True
      | NdArray l \<Rightarrow> length l = length (edges (edge_mesh m))
      | ZeroDimNone \<Rightarrow> False)"

text \<open>
  The link weight of edge \<open>e\<close>: the exponential of \<open>-i\<close> times the sum over the two
  spatial components of exponent times direction, and one without link exponents.
\<close>

definition link_weight :: "mesh \<Rightarrow> (real \<times> real) list pyarr \<Rightarrow> nat \<Rightarrow> complex" where
  "link_weight m le e =
     (case le of
        NdArray l \<Rightarrow>
          exp (- \<i> * complex_of_real
                 (fst (l ! e) * fst (directions (edge_mesh m) ! e)
                  + snd (l ! e) * snd (directions (edge_mesh m) ! e)))
      | PyNone \<Rightarrow> 1
      | ZeroDimNone \<Rightarrow> 1)"

text \<open>
  The endpoints of edge \<open>e\<close>, its weight (dual length over length), and the triplets of
  the four blocks of the Laplacian written out edge by edge.
\<close>

definition edge_weight :: "mesh \<Rightarrow> nat \<Rightarrow> real" where
  "edge_weight m e = dual_edge_lengths (edge_mesh m) ! e / edge_lengths (edge_mesh m) ! e"

definition end0 :: "mesh \<Rightarrow> nat \<Rightarrow> nat" where
  "end0 m e = fst (edges (edge_mesh m) ! e)"

definition end1 :: "mesh \<Rightarrow> nat \<Rightarrow> nat" where
  "end1 m e = snd (edges (edge_mesh m) ! e)"

definition general_triplets ::
  "mesh \<Rightarrow> (real \<times> real) list pyarr \<Rightarrow> (nat \<times> nat \<times> complex) list" where
  "general_triplets m le =
     (let M = length (edges (edge_mesh m)) in
      map (\<lambda>e. (end0 m e, end1 m e,
                 complex_of_real (edge_weight m e) * link_weight m le e
                 / complex_of_real (areas m ! end0 m e))) [0..<M]
      @ map (\<lambda>e. (end1 m e, end0 m e,
                 complex_of_real (edge_weight m e) * cnj (link_weight m le e)
                 / complex_of_real (areas m ! end1 m e))) [0..<M]
      @ map (\<lambda>e. (end0 m e, end0 m e,
                 complex_of_real (- edge_weight m e / areas m ! end0 m e))) [0..<M]
      @ map (\<lambda>e. (end1 m e, end1 m e,
                 complex_of_real (- edge_weight m e / areas m ! end1 m e))) [0..<M])"

text \<open>
  The free-row mask that \<open>build_laplacian\<close> computes at line 118 when none is passed.
\<close>

definition free_rows_mask :: "mesh \<Rightarrow> nat list pyarr \<Rightarrow> bool list" where
  "free_rows_mask m fs0 =
     isin_invert (laplacian_rows m) (if is_None fs0 then NdArray [] else fs0)"

text \<open>
  Fixed sites are well formed when they are \<^verbatim>\<open>None\<close> or an array of sites of the mesh; a
  free-row mask when it is \<^verbatim>\<open>None\<close> or holds one flag per triplet of the four blocks.
\<close>

definition fixed_sites_ok :: "mesh \<Rightarrow> nat list pyarr \<Rightarrow> bool" where
  "fixed_sites_ok m fs0 =
     (case fs0 of PyNone \<Rightarrow> True
      | NdArray fs \<Rightarrow> list_all (\<lambda>f. f < length (mesh_x m)) fs
      | ZeroDimNone \<Rightarrow> False)"

definition free_rows_ok :: "mesh \<Rightarrow> bool list option \<Rightarrow> bool" where
  "free_rows_ok m fr =
     (case fr of None \<Rightarrow> True
      | Some msk \<Rightarrow> length msk = 4 * length (edges (edge_mesh m)))"

text \<open>
  The entry at (i, j) of the Laplacian in a row that is not fixed, written as a sum over
  the edges.
\<close>

definition laplacian_entry ::
  "mesh \<Rightarrow> (real \<times> real) list pyarr \<Rightarrow> nat \<Rightarrow> nat \<Rightarrow> complex" where
  "laplacian_entry m le i j =
     (\<Sum>e = 0..<length (edges (edge_mesh m)).
        (if end0 m e = i \<and> end1 m e = j
         then complex_of_real (edge_weight m e) * link_weight m le e / complex_of_real (areas m ! i)
         else 0)
      + (if end1 m e = i \<and> end0 m e = j
         then complex_of_real (edge_weight m e) * cnj (link_weight m le e)
              / complex_of_real (areas m ! i)
         else 0)
      + (if end0 m e = i \<and> i = j then - complex_of_real (edge_weight m e / areas m ! i) else 0)
      + (if end1 m e = i \<and> i = j then - complex_of_real (edge_weight m e / areas m ! i) else 0))"

text \<open>
  The exclusion as the specification and the comment at lines 115 and 116 word it: no
  triplet of the matrix has a fixed site as its row or as its column, but for the diagonal
  entries that hold the eigenvalue.
\<close>

definition excludes_fixed_rows_and_columns :: "sparse \<Rightarrow> nat list \<Rightarrow> real \<Rightarrow> bool" where
  "excludes_fixed_rows_and_columns L fs ev =
     list_all (\<lambda>t. (fst t \<notin> set fs \<and> fst (snd t) \<notin> set fs)
                   \<or> (fst (snd t) = fst t \<and> snd (snd t) = complex_of_real ev))
       (triplets L)"

text \<open>
  Whether a site is one of the fixed sites; the boundary edge in column \<open>b\<close> of the
  Neumann operator; and the triplets of that operator before any row is set to zero.
\<close>

definition is_fixed :: "nat list pyarr \<Rightarrow> nat \<Rightarrow> bool" where
  "is_fixed fs0 s = (case fs0 of NdArray fs \<Rightarrow> s \<in> set fs | PyNone \<Rightarrow> False | ZeroDimNone \<Rightarrow> False)"

definition boundary_edge :: "mesh \<Rightarrow> nat \<Rightarrow> nat" where
  "boundary_edge m b = boundary_edge_indices (edge_mesh m) ! b"

definition neumann_triplets :: "mesh \<Rightarrow> (nat \<times> nat \<times> complex) list" where
  "neumann_triplets m =
     (let B = length (boundary_edge_indices (edge_mesh m)) in
      map (\<lambda>b. (end0 m (boundary_edge m b), b,
                 complex_of_real (edge_lengths (edge_mesh m) ! boundary_edge m b
                                  / (2 * areas m ! end0 m (boundary_edge m b))))) [0..<B]
      @ map (\<lambda>b. (end1 m (boundary_edge m b), b,
                 complex_of_real (edge_lengths (edge_mesh m) ! boundary_edge m b
                                  / (2 * areas m ! end1 m (boundary_edge m b))))) [0..<B])"

text \<open>
  A builder and a free-row mask are well formed when the mesh, the link exponents, the
  fixed sites and the mask are.
\<close>

definition builder_ok :: "matrix_builder \<Rightarrow> bool list option \<Rightarrow> bool" where
  "builder_ok b fr =
     (mesh_wf (mesh_of b)
      \<and> link_exponents_ok (mesh_of b) (link_exponents b)
      \<and> fixed_sites_ok (mesh_of b) (fixed_sites b)
      \<and> free_rows_ok (mesh_of b) fr)"

section \<open>Example meshes\<close>

text \<open>
  Two sites of dual areas 1 and 2, joined by one boundary edge of length 2 and dual
  length 3.
\<close>

definition two_site_mesh :: mesh where
  "two_site_mesh =
     \<lparr>mesh_x = [0, 1], areas = [1, 2],
      edge_mesh = \<lparr>edges = [(0, 1)], edge_lengths = [2], dual_edge_lengths = [3],
                   directions = [(2, 0)], boundary_edge_indices = [0]\<rparr>\<rparr>"

section \<open>Lemmas on the numpy operations\<close>

lemmas eval_defs =
  ebind_def np_binop_def take_idx_def mask_select_def coo_matrix_def is_None_def
  object_dtype_def sparse_values_def
  link_variable_weights_def laplacian_rows_def laplacian_cols_def laplacian_values_def
  build_laplacian_def build_gradient_def build_divergence_def
  neumann_assembly_def build_neumann_boundary_laplacian_def Let_def

lemma ebind_Inr [simp]: "ebind (Inr v) f = f v"
  by (simp add: ebind_def)

lemma ebind_Inl [simp]: "ebind (Inl e) f = Inl e"
  by (simp add: ebind_def)

lemma sparse_values_ok:
  "link_exponents_ok m le \<Longrightarrow>
   sparse_values le vals rows cols n k = coo_matrix vals rows cols n k"
  by (cases le) (simp_all add: sparse_values_def object_dtype_def link_exponents_ok_def)

lemma np_binop_same: "length xs = length ys \<Longrightarrow> np_binop f xs ys = Inr (map2 f xs ys)"
  by (simp add: np_binop_def)

lemma take_idx_ok:
  "list_all (\<lambda>i. i < length xs) idx \<Longrightarrow> take_idx xs idx = Inr (map (\<lambda>i. xs ! i) idx)"
  by (simp add: take_idx_def)

lemma map_as_upt: "length xs = n \<Longrightarrow> map f xs = map (\<lambda>i. f (xs ! i)) [0..<n]"
  by (auto intro: nth_equalityI)

lemma sum_list_filter_if:
  "sum_list (map g (filter P xs)) = sum_list (map (\<lambda>t. if P t then g t else (0::complex)) xs)"
  by (induction xs) auto

lemma sum_list_upt_sum: "sum_list (map f [0..<n]) = (\<Sum>k = 0..<n. (f k :: complex))"
  by (simp add: interv_sum_list_conv_sum_set_nat)

lemma entry_sum:
  "entry A i j =
     sum_list (map (\<lambda>t. if fst t = i \<and> fst (snd t) = j then snd (snd t) else 0) (triplets A))"
  by (simp add: entry_def sum_list_filter_if)

lemma row_dot_sum:
  "row_dot A v i =
     sum_list (map (\<lambda>t. if fst t = i then snd (snd t) * v ! fst (snd t) else 0) (triplets A))"
  by (simp add: row_dot_def sum_list_filter_if)

lemma link_variable_weights_wf:
  assumes "length (directions (edge_mesh m)) = length (edges (edge_mesh m))"
    and "link_exponents_ok m le"
  shows "link_variable_weights (edge_mesh m) le (length (edges (edge_mesh m)))
         = Inr (map (link_weight m le) [0..<length (edges (edge_mesh m))])"
proof (cases le)
  case PyNone
  then show ?thesis
    by (auto simp: link_variable_weights_def link_weight_def intro!: nth_equalityI)
next
  case (NdArray l)
  with assms have len: "length l = length (directions (edge_mesh m))"
    by (simp add: link_exponents_ok_def)
  show ?thesis
    using len assms(1) NdArray
    by (auto simp: link_variable_weights_def link_weight_def np_binop_same intro!: nth_equalityI)
next
  case ZeroDimNone
  with assms show ?thesis by (simp add: link_exponents_ok_def)
qed

lemma zip_map_upt: "zip (map f [0..<n]) (map g [0..<n]) = map (\<lambda>i. (f i, g i)) [0..<n]"
  by (auto intro!: nth_equalityI)

lemma zip_upt_map: "zip [0..<n] (map g [0..<n]) = map (\<lambda>i. (i, g i)) [0..<n]"
  by (auto intro!: nth_equalityI)

lemma map2_map_upt:
  "map2 f (map g [0..<n]) (map h [0..<n]) = map (\<lambda>i. f (g i) (h i)) [0..<n]"
  by (auto intro!: nth_equalityI)

lemma map2_left_upt:
  "length xs = n \<Longrightarrow> map2 f xs (map h [0..<n]) = map (\<lambda>i. f (xs ! i) (h i)) [0..<n]"
  by (auto intro!: nth_equalityI)

lemma list_all_upt: "list_all (\<lambda>e. e < n) [0..<n]"
  by (simp add: list_all_iff)

section \<open>Gradient and divergence\<close>

lemma build_gradient_wf:
  assumes wf: "mesh_wf m" and ok: "link_exponents_ok m le"
  shows "build_gradient m le =
     Inr \<lparr>nrows = length (edges (edge_mesh m)), ncols = length (mesh_x m),
          triplets =
            map (\<lambda>e. (e, snd (edges (edge_mesh m) ! e),
                       link_weight m le e * complex_of_real (1 / edge_lengths (edge_mesh m) ! e)))
              [0..<length (edges (edge_mesh m))]
            @ map (\<lambda>e. (e, fst (edges (edge_mesh m) ! e),
                       complex_of_real (- (1 / edge_lengths (edge_mesh m) ! e))))
              [0..<length (edges (edge_mesh m))]\<rparr>"
proof -
  let ?M = "length (edges (edge_mesh m))"
  from wf have lens: "length (edge_lengths (edge_mesh m)) = ?M"
    "length (directions (edge_mesh m)) = ?M"
    and inr: "list_all (\<lambda>e. fst e < length (mesh_x m) \<and> snd e < length (mesh_x m)) (edges (edge_mesh m))"
    by (simp_all add: mesh_wf_def)
  have lvw: "link_variable_weights (edge_mesh m) le ?M = Inr (map (link_weight m le) [0..<?M])"
    using link_variable_weights_wf [OF lens(2) ok] .
  have w: "map (\<lambda>l. 1 / l) (edge_lengths (edge_mesh m))
           = map (\<lambda>e. 1 / edge_lengths (edge_mesh m) ! e) [0..<?M]"
    using lens(1) by (rule map_as_upt)
  have e0: "map fst (edges (edge_mesh m)) = map (\<lambda>e. fst (edges (edge_mesh m) ! e)) [0..<?M]"
    and e1: "map snd (edges (edge_mesh m)) = map (\<lambda>e. snd (edges (edge_mesh m) ! e)) [0..<?M]"
    by (rule map_as_upt, simp)+
  have c0: "list_all (\<lambda>c. c < length (mesh_x m)) (map (\<lambda>e. fst (edges (edge_mesh m) ! e)) [0..<?M])"
    and c1: "list_all (\<lambda>c. c < length (mesh_x m)) (map (\<lambda>e. snd (edges (edge_mesh m) ! e)) [0..<?M])"
    using inr by (simp_all add: list_all_length)
  show ?thesis
    unfolding build_gradient_def Let_def
    by (simp add: lens lvw w e0 e1 c0 c1 np_binop_same coo_matrix_def sparse_values_ok [OF ok]
        zip_map_upt zip_upt_map map2_map_upt list_all_upt)
qed

lemma build_divergence_wf:
  assumes wf: "mesh_wf m"
  shows "build_divergence m =
     Inr \<lparr>nrows = length (mesh_x m), ncols = length (edges (edge_mesh m)),
          triplets =
            map (\<lambda>e. (fst (edges (edge_mesh m) ! e), e,
                       complex_of_real (dual_edge_lengths (edge_mesh m) ! e
                                        / areas m ! fst (edges (edge_mesh m) ! e))))
              [0..<length (edges (edge_mesh m))]
            @ map (\<lambda>e. (snd (edges (edge_mesh m) ! e), e,
                       complex_of_real (- dual_edge_lengths (edge_mesh m) ! e
                                        / areas m ! snd (edges (edge_mesh m) ! e))))
              [0..<length (edges (edge_mesh m))]\<rparr>"
proof -
  let ?M = "length (edges (edge_mesh m))"
  from wf have lens: "length (dual_edge_lengths (edge_mesh m)) = ?M"
    "length (areas m) = length (mesh_x m)"
    and inr: "list_all (\<lambda>e. fst e < length (mesh_x m) \<and> snd e < length (mesh_x m)) (edges (edge_mesh m))"
    by (simp_all add: mesh_wf_def)
  have w: "map uminus (dual_edge_lengths (edge_mesh m))
           = map (\<lambda>e. - dual_edge_lengths (edge_mesh m) ! e) [0..<?M]"
    using lens(1) by (rule map_as_upt)
  have e0: "map fst (edges (edge_mesh m)) = map (\<lambda>e. fst (edges (edge_mesh m) ! e)) [0..<?M]"
    and e1: "map snd (edges (edge_mesh m)) = map (\<lambda>e. snd (edges (edge_mesh m) ! e)) [0..<?M]"
    by (rule map_as_upt, simp)+
  have c0: "list_all (\<lambda>c. c < length (mesh_x m)) (map (\<lambda>e. fst (edges (edge_mesh m) ! e)) [0..<?M])"
    and c1: "list_all (\<lambda>c. c < length (mesh_x m)) (map (\<lambda>e. snd (edges (edge_mesh m) ! e)) [0..<?M])"
    using inr by (simp_all add: list_all_length)
  have t0: "take_idx (areas m) (map (\<lambda>e. fst (edges (edge_mesh m) ! e)) [0..<?M])
            = Inr (map (\<lambda>e. areas m ! fst (edges (edge_mesh m) ! e)) [0..<?M])"
    and t1: "take_idx (areas m) (map (\<lambda>e. snd (edges (edge_mesh m) ! e)) [0..<?M])
            = Inr (map (\<lambda>e. areas m ! snd (edges (edge_mesh m) ! e)) [0..<?M])"
    using c0 c1 by (simp_all add: take_idx_def lens o_def)
  show ?thesis
    unfolding build_divergence_def Let_def
    by (simp add: w e0 e1 t0 t1 lens np_binop_same coo_matrix_def c0 c1
        zip_map_upt zip_upt_map map2_map_upt map2_left_upt list_all_upt)
qed

text \<open>
  Claim C5. On a well-formed mesh with N sites and M edges, and with link exponents that
  are absent or hold one pair per edge, \<open>build_gradient\<close> returns an M by N matrix G,
  and for every site field \<open>phi\<close> and every edge \<open>e\<close> the product \<open>G phi\<close> at \<open>e\<close> is
  \<open>(phi[end1] * linkWeight[e] - phi[end0]) / edgeLength[e]\<close>. The link weight is the
  exponential of \<open>-i\<close> times the sum over both components of exponent times direction,
  and 1 without link exponents; it multiplies the endpoint-1 term only.
\<close>

theorem gradient_applies_link_weight_to_endpoint1:
  assumes "mesh_wf m" and "link_exponents_ok m le"
    and "length phi = length (mesh_x m)" and "e < length (edges (edge_mesh m))"
  shows "\<exists>G r. build_gradient m le = Inr G
           \<and> nrows G = length (edges (edge_mesh m)) \<and> ncols G = length (mesh_x m)
           \<and> matvec G phi = Inr r
           \<and> r ! e = (phi ! snd (edges (edge_mesh m) ! e) * link_weight m le e
                      - phi ! fst (edges (edge_mesh m) ! e))
                     / complex_of_real (edge_lengths (edge_mesh m) ! e)"
proof -
  let ?M = "length (edges (edge_mesh m))"
  obtain G where G: "build_gradient m le = Inr G"
    and Gdef: "G = \<lparr>nrows = ?M, ncols = length (mesh_x m),
          triplets =
            map (\<lambda>e. (e, snd (edges (edge_mesh m) ! e),
                       link_weight m le e * complex_of_real (1 / edge_lengths (edge_mesh m) ! e)))
              [0..<?M]
            @ map (\<lambda>e. (e, fst (edges (edge_mesh m) ! e),
                       complex_of_real (- (1 / edge_lengths (edge_mesh m) ! e))))
              [0..<?M]\<rparr>"
    using build_gradient_wf [OF assms(1,2)] by simp
  have mv: "matvec G phi = Inr (map (row_dot G phi) [0..<?M])"
    using assms(3) by (simp add: matvec_def Gdef)
  have "row_dot G phi e =
          (phi ! snd (edges (edge_mesh m) ! e) * link_weight m le e
             - phi ! fst (edges (edge_mesh m) ! e))
          / complex_of_real (edge_lengths (edge_mesh m) ! e)"
    using assms(4)
    by (simp add: row_dot_sum Gdef o_def sum_list_upt_sum diff_divide_distrib)
  with assms(4) have "map (row_dot G phi) [0..<?M] ! e =
          (phi ! snd (edges (edge_mesh m) ! e) * link_weight m le e
             - phi ! fst (edges (edge_mesh m) ! e))
          / complex_of_real (edge_lengths (edge_mesh m) ! e)"
    by simp
  with G mv show ?thesis
    by (simp add: Gdef)
qed

theorem gradient_applies_link_weight_to_endpoint1_witness:
  "\<exists>G r. build_gradient two_site_mesh (NdArray [(0, 1)]) = Inr G
     \<and> nrows G = 1 \<and> ncols G = 2 \<and> matvec G [5, 7] = Inr r \<and> r ! 0 = 1"
  using gradient_applies_link_weight_to_endpoint1
          [of two_site_mesh "NdArray [(0, 1)]" "[5, 7]" 0]
  by (simp add: two_site_mesh_def mesh_wf_def link_exponents_ok_def link_weight_def numeral_2_eq_2)

text \<open>
  Claim C6. On a well-formed mesh with N sites and M edges, \<open>build_divergence\<close> returns
  an N by M matrix D, and for every edge field \<open>v\<close> and every site \<open>s\<close> the product
  \<open>D v\<close> at \<open>s\<close> is the sum over the edges of \<open>v[e] * dualEdgeLength[e] / area[s]\<close>, taken
  with sign +1 where \<open>s\<close> is endpoint 0 of \<open>e\<close> and with sign -1 where it is endpoint 1.
  No link weight enters, and what the builder returns for \<open>DIVERGENCE\<close> does not depend on
  its fixed sites, eigenvalue, link exponents or free-row mask.
\<close>

theorem divergence_is_signed_flux_sum:
  assumes "mesh_wf m" and "length v = length (edges (edge_mesh m))" and "s < length (mesh_x m)"
  shows "(\<exists>D r. build_divergence m = Inr D
            \<and> nrows D = length (mesh_x m) \<and> ncols D = length (edges (edge_mesh m))
            \<and> matvec D v = Inr r
            \<and> r ! s = (\<Sum>e = 0..<length (edges (edge_mesh m)).
                 (if fst (edges (edge_mesh m) ! e) = s
                  then v ! e * complex_of_real (dual_edge_lengths (edge_mesh m) ! e / areas m ! s)
                  else 0)
                 + (if snd (edges (edge_mesh m) ! e) = s
                    then - (v ! e * complex_of_real (dual_edge_lengths (edge_mesh m) ! e / areas m ! s))
                    else 0)))
         \<and> build (b\<lparr>fixed_sites := fs, fixed_sites_eigenvalue := ev, link_exponents := le\<rparr>)
               DIVERGENCE free_rows
             = build b DIVERGENCE None"
proof -
  let ?M = "length (edges (edge_mesh m))"
  obtain D where D: "build_divergence m = Inr D"
    and Ddef: "D = \<lparr>nrows = length (mesh_x m), ncols = ?M,
          triplets =
            map (\<lambda>e. (fst (edges (edge_mesh m) ! e), e,
                       complex_of_real (dual_edge_lengths (edge_mesh m) ! e
                                        / areas m ! fst (edges (edge_mesh m) ! e))))
              [0..<?M]
            @ map (\<lambda>e. (snd (edges (edge_mesh m) ! e), e,
                       complex_of_real (- dual_edge_lengths (edge_mesh m) ! e
                                        / areas m ! snd (edges (edge_mesh m) ! e))))
              [0..<?M]\<rparr>"
    using build_divergence_wf [OF assms(1)] by simp
  have mv: "matvec D v = Inr (map (row_dot D v) [0..<length (mesh_x m)])"
    using assms(2) by (simp add: matvec_def Ddef)
  have "row_dot D v s = (\<Sum>e = 0..<?M.
                 (if fst (edges (edge_mesh m) ! e) = s
                  then v ! e * complex_of_real (dual_edge_lengths (edge_mesh m) ! e / areas m ! s)
                  else 0)
                 + (if snd (edges (edge_mesh m) ! e) = s
                    then - (v ! e * complex_of_real (dual_edge_lengths (edge_mesh m) ! e / areas m ! s))
                    else 0))"
    by (simp add: row_dot_sum Ddef o_def sum_list_upt_sum sum.distrib mult.commute
        cong: if_cong)
  with assms(3) have "map (row_dot D v) [0..<length (mesh_x m)] ! s = (\<Sum>e = 0..<?M.
                 (if fst (edges (edge_mesh m) ! e) = s
                  then v ! e * complex_of_real (dual_edge_lengths (edge_mesh m) ! e / areas m ! s)
                  else 0)
                 + (if snd (edges (edge_mesh m) ! e) = s
                    then - (v ! e * complex_of_real (dual_edge_lengths (edge_mesh m) ! e / areas m ! s))
                    else 0))"
    by simp
  with D mv have "\<exists>D r. build_divergence m = Inr D
            \<and> nrows D = length (mesh_x m) \<and> ncols D = ?M
            \<and> matvec D v = Inr r
            \<and> r ! s = (\<Sum>e = 0..<?M.
                 (if fst (edges (edge_mesh m) ! e) = s
                  then v ! e * complex_of_real (dual_edge_lengths (edge_mesh m) ! e / areas m ! s)
                  else 0)
                 + (if snd (edges (edge_mesh m) ! e) = s
                    then - (v ! e * complex_of_real (dual_edge_lengths (edge_mesh m) ! e / areas m ! s))
                    else 0))"
    by (simp add: Ddef)
  then show ?thesis by simp
qed

theorem divergence_is_signed_flux_sum_witness:
  "\<exists>D r. build_divergence two_site_mesh = Inr D
     \<and> nrows D = 2 \<and> ncols D = 1 \<and> matvec D [4] = Inr r \<and> r ! 1 = - 6"
  using divergence_is_signed_flux_sum [of two_site_mesh "[4]" 1]
  by (simp add: two_site_mesh_def mesh_wf_def numeral_2_eq_2)

section \<open>The Laplacian\<close>

lemma mask_zip3:
  "length rs = length cs \<Longrightarrow> length cs = length vs \<Longrightarrow>
   zip (map fst (filter snd (zip rs (map P rs))))
       (zip (map fst (filter snd (zip cs (map P rs))))
            (map fst (filter snd (zip vs (map P rs)))))
   = filter (\<lambda>t. P (fst t)) (zip rs (zip cs vs))"
proof (induction rs cs vs rule: list_induct3)
  case Nil
  then show ?case by simp
next
  case (Cons r rs c cs v vs)
  then show ?case by simp
qed

lemma mask_len:
  "length xs = length rs \<Longrightarrow>
   length (filter snd (zip xs (map P rs))) = length (filter P rs)"
proof (induction xs rs rule: list_induct2)
  case Nil
  then show ?case by simp
next
  case (Cons x xs r rs)
  then show ?case by simp
qed

lemma zip_fixed_diag:
  "zip fs (zip fs (replicate (length fs) c)) = map (\<lambda>f. (f, f, c)) fs"
  by (induction fs) auto

lemma laplacian_rows_cols_length: "length (laplacian_cols m) = length (laplacian_rows m)"
  by (simp add: laplacian_rows_def laplacian_cols_def Let_def)

lemma build_laplacian_PyNone:
  "build_laplacian m le PyNone fr ev = build_laplacian m le (NdArray []) fr ev"
  by (simp add: build_laplacian_def is_None_def)

lemma build_laplacian_unfold:
  assumes "build_laplacian m le (NdArray fs) None ev = Inr (L, msk)"
  shows "\<exists>vals. laplacian_values m le = Inr vals
           \<and> length vals = length (laplacian_rows m)
           \<and> msk = map (\<lambda>r. r \<notin> set fs) (laplacian_rows m)
           \<and> L = \<lparr>nrows = length (mesh_x m), ncols = length (mesh_x m),
                  triplets =
                    filter (\<lambda>t. fst t \<notin> set fs)
                      (zip (laplacian_rows m) (zip (laplacian_cols m) vals))
                    @ map (\<lambda>f. (f, f, complex_of_real ev)) fs\<rparr>"
proof (cases "laplacian_values m le")
  case (Inl e)
  with assms show ?thesis by (simp add: build_laplacian_def)
next
  case (Inr vals)
  let ?rows = "laplacian_rows m" and ?cols = "laplacian_cols m"
  let ?P = "\<lambda>r. r \<notin> set fs"
  have lc: "length ?cols = length ?rows" by (rule laplacian_rows_cols_length)
  show ?thesis
  proof (cases "length vals = length ?rows")
    case False
    with assms Inr show ?thesis
      by (simp add: build_laplacian_def is_None_def mask_select_def lc)
  next
    case True
    have l1: "length (filter snd (zip ?cols (map ?P ?rows))) = length (filter ?P ?rows)"
      and l2: "length (filter snd (zip vals (map ?P ?rows))) = length (filter ?P ?rows)"
      and l3: "length (filter snd (zip ?rows (map ?P ?rows))) = length (filter ?P ?rows)"
      using lc True by (simp_all add: mask_len)
    from assms Inr True lc l1 l2 l3 show ?thesis
      by (simp add: build_laplacian_def is_None_def mask_select_def coo_matrix_def Let_def
          sparse_values_def mask_zip3 zip_fixed_diag split: if_splits)
  qed
qed

lemma sum_list_all_zero:
  "(\<And>t. t \<in> set xs \<Longrightarrow> g t = (0::complex)) \<Longrightarrow> sum_list (map g xs) = 0"
  by (induction xs) auto

lemma sum_list_delta:
  "distinct fs \<Longrightarrow>
   sum_list (map (\<lambda>x. if x = f then (c::complex) else 0) fs) = (if f \<in> set fs then c else 0)"
  by (induction fs) auto

lemma fixed_row_entry:
  assumes dist: "distinct fs" and f: "f \<in> set fs"
    and free: "\<And>t. t \<in> set ts \<Longrightarrow> fst t \<notin> set fs"
  shows "entry \<lparr>nrows = n, ncols = n', triplets = ts @ map (\<lambda>f. (f, f, c)) fs\<rparr> f j
         = (if j = f then c else 0)"
proof -
  let ?g = "\<lambda>t::nat \<times> nat \<times> complex. if fst t = f \<and> fst (snd t) = j then snd (snd t) else 0"
  have z: "sum_list (map ?g ts) = 0"
    using f free by (intro sum_list_all_zero) auto
  have diag: "sum_list (map ?g (map (\<lambda>f. (f, f, c)) fs)) = (if j = f then c else 0)"
  proof (cases "j = f")
    case True
    then show ?thesis
      using sum_list_delta [OF dist, of f c] f by (simp add: o_def cong: if_cong)
  next
    case False
    then have "sum_list (map ?g (map (\<lambda>f. (f, f, c)) fs)) = 0"
      by (intro sum_list_all_zero) auto
    with False show ?thesis by simp
  qed
  show ?thesis
    by (simp add: entry_sum z diag del: map_map)
qed

lemma fixed_rows_of_returned_laplacian:
  assumes built: "build_laplacian m le (NdArray fs) None ev = Inr (L, msk)"
    and dist: "distinct fs" and f: "f \<in> set fs"
  shows "entry L f c = (if c = f then complex_of_real ev else 0)"
proof -
  from build_laplacian_unfold [OF built] obtain vals where
    L: "L = \<lparr>nrows = length (mesh_x m), ncols = length (mesh_x m),
              triplets =
                filter (\<lambda>t. fst t \<notin> set fs)
                  (zip (laplacian_rows m) (zip (laplacian_cols m) vals))
                @ map (\<lambda>f. (f, f, complex_of_real ev)) fs\<rparr>"
    by auto
  show ?thesis
    unfolding L by (rule fixed_row_entry [OF dist f]) simp
qed

lemma two_site_laplacian_fixed1:
  "build_laplacian two_site_mesh PyNone (NdArray [1]) None 7
   = Inr (\<lparr>nrows = 2, ncols = 2, triplets = [(0, 1, 3 / 2), (0, 0, - (3 / 2)), (1, 1, 7)]\<rparr>,
          [True, False, True, False])"
  by (simp add: eval_defs two_site_mesh_def)

lemma laplacian_rows_upt:
  "laplacian_rows m =
     map (end0 m) [0..<length (edges (edge_mesh m))] @ map (end1 m) [0..<length (edges (edge_mesh m))]
     @ map (end0 m) [0..<length (edges (edge_mesh m))] @ map (end1 m) [0..<length (edges (edge_mesh m))]"
proof -
  have "map fst (edges (edge_mesh m)) = map (end0 m) [0..<length (edges (edge_mesh m))]"
    "map snd (edges (edge_mesh m)) = map (end1 m) [0..<length (edges (edge_mesh m))]"
    by (auto simp: end0_def end1_def intro!: nth_equalityI)
  then show ?thesis by (simp add: laplacian_rows_def Let_def)
qed

lemma laplacian_cols_upt:
  "laplacian_cols m =
     map (end1 m) [0..<length (edges (edge_mesh m))] @ map (end0 m) [0..<length (edges (edge_mesh m))]
     @ map (end0 m) [0..<length (edges (edge_mesh m))] @ map (end1 m) [0..<length (edges (edge_mesh m))]"
proof -
  have "map fst (edges (edge_mesh m)) = map (end0 m) [0..<length (edges (edge_mesh m))]"
    "map snd (edges (edge_mesh m)) = map (end1 m) [0..<length (edges (edge_mesh m))]"
    by (auto simp: end0_def end1_def intro!: nth_equalityI)
  then show ?thesis by (simp add: laplacian_cols_def Let_def)
qed

lemma laplacian_values_wf:
  assumes wf: "mesh_wf m" and ok: "link_exponents_ok m le"
  shows "laplacian_values m le =
     Inr (map (\<lambda>e. complex_of_real (edge_weight m e) * link_weight m le e
                     / complex_of_real (areas m ! end0 m e)) [0..<length (edges (edge_mesh m))]
          @ map (\<lambda>e. complex_of_real (edge_weight m e) * cnj (link_weight m le e)
                     / complex_of_real (areas m ! end1 m e)) [0..<length (edges (edge_mesh m))]
          @ map (\<lambda>e. complex_of_real (- edge_weight m e / areas m ! end0 m e))
              [0..<length (edges (edge_mesh m))]
          @ map (\<lambda>e. complex_of_real (- edge_weight m e / areas m ! end1 m e))
              [0..<length (edges (edge_mesh m))])"
proof -
  let ?M = "length (edges (edge_mesh m))"
  from wf have lens: "length (dual_edge_lengths (edge_mesh m)) = ?M"
    "length (edge_lengths (edge_mesh m)) = ?M"
    "length (directions (edge_mesh m)) = ?M"
    "length (areas m) = length (mesh_x m)"
    and inr: "list_all (\<lambda>e. fst e < length (mesh_x m) \<and> snd e < length (mesh_x m)) (edges (edge_mesh m))"
    by (simp_all add: mesh_wf_def)
  have w: "np_binop (/) (dual_edge_lengths (edge_mesh m)) (edge_lengths (edge_mesh m))
           = Inr (map (edge_weight m) [0..<?M])"
    using lens by (auto simp: np_binop_same edge_weight_def intro!: nth_equalityI)
  have lvw: "link_variable_weights (edge_mesh m) le ?M = Inr (map (link_weight m le) [0..<?M])"
    using link_variable_weights_wf [OF lens(3) ok] .
  have e0: "map fst (edges (edge_mesh m)) = map (end0 m) [0..<?M]"
    and e1: "map snd (edges (edge_mesh m)) = map (end1 m) [0..<?M]"
    by (auto simp: end0_def end1_def intro!: nth_equalityI)
  have c0: "list_all (\<lambda>c. c < length (mesh_x m)) (map (end0 m) [0..<?M])"
    and c1: "list_all (\<lambda>c. c < length (mesh_x m)) (map (end1 m) [0..<?M])"
    using inr by (simp_all add: list_all_length end0_def end1_def)
  have t0: "take_idx (areas m) (map (end0 m) [0..<?M])
            = Inr (map (\<lambda>e. areas m ! end0 m e) [0..<?M])"
    and t1: "take_idx (areas m) (map (end1 m) [0..<?M])
            = Inr (map (\<lambda>e. areas m ! end1 m e) [0..<?M])"
    using c0 c1 by (simp_all add: take_idx_def lens o_def)
  show ?thesis
    unfolding laplacian_values_def Let_def
    by (simp add: w lvw e0 e1 t0 t1 np_binop_same map2_map_upt)
qed

lemma general_triplets_zip:
  assumes wf: "mesh_wf m" and ok: "link_exponents_ok m le"
  shows "\<exists>vals. laplacian_values m le = Inr vals
           \<and> length vals = length (laplacian_rows m)
           \<and> zip (laplacian_rows m) (zip (laplacian_cols m) vals) = general_triplets m le"
  unfolding laplacian_values_wf [OF wf ok] laplacian_rows_upt laplacian_cols_upt
  by (simp add: general_triplets_def zip_map_upt Let_def)

lemma build_laplacian_free_rows_mask:
  "build_laplacian m le fs0 (Some (free_rows_mask m fs0)) ev = build_laplacian m le fs0 None ev"
  by (simp add: build_laplacian_def free_rows_mask_def Let_def)

lemma mask_zip3_gen:
  "length rs = length cs \<Longrightarrow> length cs = length vs \<Longrightarrow> length vs = length ms \<Longrightarrow>
   zip (map fst (filter snd (zip rs ms)))
       (zip (map fst (filter snd (zip cs ms))) (map fst (filter snd (zip vs ms))))
   = map fst (filter snd (zip (zip rs (zip cs vs)) ms))"
proof (induction rs cs vs ms rule: list_induct4)
  case Nil
  then show ?case by simp
next
  case (Cons r rs c cs v vs b ms)
  then show ?case by simp
qed

lemma mask_len_gen:
  "length xs = length ms \<Longrightarrow>
   length (filter snd (zip xs ms)) = length (filter (\<lambda>b. b) ms)"
proof (induction xs ms rule: list_induct2)
  case Nil
  then show ?case by simp
next
  case (Cons x xs b ms)
  then show ?case by simp
qed

lemma mask_by_row:
  "length xs = length rs \<Longrightarrow>
   map fst (filter snd (zip (zip rs xs) (map P rs))) = filter (\<lambda>t. P (fst t)) (zip rs xs)"
proof (induction xs rs rule: list_induct2)
  case Nil
  then show ?case by simp
next
  case (Cons x xs r rs)
  then show ?case by simp
qed

lemma list_all_mask:
  "list_all P xs \<Longrightarrow> list_all P (map fst (filter snd (zip xs ms)))"
  by (auto simp: list_all_iff dest: set_zip_leftD)

lemma laplacian_in_range:
  assumes "mesh_wf m"
  shows "list_all (\<lambda>r. r < length (mesh_x m)) (laplacian_rows m)"
    and "list_all (\<lambda>r. r < length (mesh_x m)) (laplacian_cols m)"
  using assms
  by (auto simp: mesh_wf_def laplacian_rows_def laplacian_cols_def Let_def list_all_iff)

lemma laplacian_rows_length: "length (laplacian_rows m) = 4 * length (edges (edge_mesh m))"
  by (simp add: laplacian_rows_def Let_def)

lemma build_laplacian_wf_mask:
  assumes wf: "mesh_wf m" and ok: "link_exponents_ok m le"
    and fs: "list_all (\<lambda>f. f < length (mesh_x m)) fs"
    and len: "length msk = length (laplacian_rows m)"
  shows "build_laplacian m le (NdArray fs) (Some msk) ev =
     Inr (\<lparr>nrows = length (mesh_x m), ncols = length (mesh_x m),
           triplets = map fst (filter snd (zip (general_triplets m le) msk))
                      @ map (\<lambda>f. (f, f, complex_of_real ev)) fs\<rparr>, msk)"
proof -
  from general_triplets_zip [OF wf ok] obtain vals where
    vals: "laplacian_values m le = Inr vals"
    and lv: "length vals = length (laplacian_rows m)"
    and z: "zip (laplacian_rows m) (zip (laplacian_cols m) vals) = general_triplets m le"
    by blast
  let ?rows = "laplacian_rows m" and ?cols = "laplacian_cols m"
  have lc: "length ?cols = length ?rows" by (rule laplacian_rows_cols_length)
  have l1: "length (filter snd (zip ?rows msk)) = length (filter (\<lambda>b. b) msk)"
    and l2: "length (filter snd (zip ?cols msk)) = length (filter (\<lambda>b. b) msk)"
    and l3: "length (filter snd (zip vals msk)) = length (filter (\<lambda>b. b) msk)"
    using lc lv len by (simp_all add: mask_len_gen)
  have r1: "list_all (\<lambda>r. r < length (mesh_x m)) (map fst (filter snd (zip ?rows msk)))"
    and r2: "list_all (\<lambda>r. r < length (mesh_x m)) (map fst (filter snd (zip ?cols msk)))"
    using laplacian_in_range [OF wf] by (simp_all add: list_all_mask)
  have z3: "zip (map fst (filter snd (zip ?rows msk)))
              (zip (map fst (filter snd (zip ?cols msk))) (map fst (filter snd (zip vals msk))))
            = map fst (filter snd (zip (general_triplets m le) msk))"
    using mask_zip3_gen [of ?rows ?cols vals msk] lc lv len z by simp
  show ?thesis
    unfolding build_laplacian_def Let_def
    using fs
    by (simp add: vals is_None_def mask_select_def len lc lv coo_matrix_def l1 l2 l3 r1 r2 z3
        zip_fixed_diag sparse_values_ok [OF ok])
qed

lemma build_laplacian_wf:
  assumes wf: "mesh_wf m" and ok: "link_exponents_ok m le"
    and fs: "list_all (\<lambda>f. f < length (mesh_x m)) fs"
  shows "build_laplacian m le (NdArray fs) None ev =
     Inr (\<lparr>nrows = length (mesh_x m), ncols = length (mesh_x m),
           triplets = filter (\<lambda>t. fst t \<notin> set fs) (general_triplets m le)
                      @ map (\<lambda>f. (f, f, complex_of_real ev)) fs\<rparr>,
          map (\<lambda>r. r \<notin> set fs) (laplacian_rows m))"
proof -
  from general_triplets_zip [OF wf ok] obtain vals where
    lv: "length vals = length (laplacian_rows m)"
    and z: "zip (laplacian_rows m) (zip (laplacian_cols m) vals) = general_triplets m le"
    by blast
  have lz: "length (zip (laplacian_cols m) vals) = length (laplacian_rows m)"
    using lv by (simp add: laplacian_rows_cols_length)
  have sel: "map fst (filter snd (zip (general_triplets m le)
                (map (\<lambda>r. r \<notin> set fs) (laplacian_rows m))))
             = filter (\<lambda>t. fst t \<notin> set fs) (general_triplets m le)"
    using mask_by_row [OF lz, of "\<lambda>r. r \<notin> set fs"] z by simp
  have fm: "free_rows_mask m (NdArray fs) = map (\<lambda>r. r \<notin> set fs) (laplacian_rows m)"
    by (simp add: free_rows_mask_def is_None_def)
  show ?thesis
    using build_laplacian_wf_mask [OF wf ok fs, of "free_rows_mask m (NdArray fs)" ev]
      build_laplacian_free_rows_mask [of m le "NdArray fs" ev]
    by (simp add: fm sel)
qed

lemma sum_list_filter_irrelevant:
  "(\<And>t. t \<in> set xs \<Longrightarrow> \<not> P t \<Longrightarrow> g t = (0::complex)) \<Longrightarrow>
   sum_list (map g (filter P xs)) = sum_list (map g xs)"
  by (induction xs) auto

lemma general_triplets_entry:
  "sum_list (map (\<lambda>t. if fst t = i \<and> fst (snd t) = j then snd (snd t) else 0)
     (general_triplets m le)) = laplacian_entry m le i j"
proof -
  have d0: "(\<Sum>k = 0..<length (edges (edge_mesh m)).
               if end0 m k = i \<and> end0 m k = j
               then - (complex_of_real (edge_weight m k) / complex_of_real (areas m ! i)) else 0)
            = (\<Sum>e = 0..<length (edges (edge_mesh m)).
               if end0 m e = i \<and> i = j
               then - (complex_of_real (edge_weight m e) / complex_of_real (areas m ! j)) else 0)"
    by (intro sum.cong refl) auto
  have d1: "(\<Sum>k = 0..<length (edges (edge_mesh m)).
               if end1 m k = i \<and> end1 m k = j
               then - (complex_of_real (edge_weight m k) / complex_of_real (areas m ! i)) else 0)
            = (\<Sum>e = 0..<length (edges (edge_mesh m)).
               if end1 m e = i \<and> i = j
               then - (complex_of_real (edge_weight m e) / complex_of_real (areas m ! j)) else 0)"
    by (intro sum.cong refl) auto
  show ?thesis
    unfolding general_triplets_def laplacian_entry_def Let_def
    by (simp add: o_def sum_list_upt_sum sum.distrib d0 d1 cong: if_cong)
qed

lemma laplacian_entry_free_row:
  assumes "i \<notin> set fs"
  shows "entry \<lparr>nrows = n, ncols = n',
                triplets = filter (\<lambda>t. fst t \<notin> set fs) (general_triplets m le)
                           @ map (\<lambda>f. (f, f, c)) fs\<rparr> i j
         = laplacian_entry m le i j"
proof -
  let ?g = "\<lambda>t::nat \<times> nat \<times> complex. if fst t = i \<and> fst (snd t) = j then snd (snd t) else 0"
  have diag: "sum_list (map ?g (map (\<lambda>f. (f, f, c)) fs)) = 0"
    using assms by (intro sum_list_all_zero) auto
  have free: "sum_list (map ?g (filter (\<lambda>t. fst t \<notin> set fs) (general_triplets m le)))
              = sum_list (map ?g (general_triplets m le))"
    using assms by (intro sum_list_filter_irrelevant) auto
  show ?thesis
    by (simp add: entry_sum diag free general_triplets_entry del: map_map)
qed

text \<open>
  Claim C3. On a well-formed mesh, with link exponents that are absent or hold one pair
  per edge and a non-empty set of fixed sites of the mesh (a list of distinct sites) with
  eigenvalue \<open>ev\<close>, \<open>build_laplacian\<close> returns an N by N Laplacian, and each of its rows
  whose index is a fixed site holds \<open>ev\<close> on the diagonal and zero in every other column.
\<close>

theorem fixed_rows_are_eigenvalue_times_identity:
  assumes wf: "mesh_wf m" and ok: "link_exponents_ok m le"
    and fs: "list_all (\<lambda>f. f < length (mesh_x m)) fs"
    and dist: "distinct fs" and f: "f \<in> set fs"
  shows "\<exists>L msk. build_laplacian m le (NdArray fs) None ev = Inr (L, msk)
     \<and> nrows L = length (mesh_x m) \<and> ncols L = length (mesh_x m)
     \<and> entry L f f = complex_of_real ev
     \<and> (\<forall>c. entry L f c = (if c = f then complex_of_real ev else 0))"
proof -
  let ?L = "\<lparr>nrows = length (mesh_x m), ncols = length (mesh_x m),
            triplets = filter (\<lambda>t. fst t \<notin> set fs) (general_triplets m le)
                       @ map (\<lambda>f. (f, f, complex_of_real ev)) fs\<rparr>"
  have b: "build_laplacian m le (NdArray fs) None ev
           = Inr (?L, map (\<lambda>r. r \<notin> set fs) (laplacian_rows m))"
    by (rule build_laplacian_wf [OF wf ok fs])
  have e: "entry ?L f c = (if c = f then complex_of_real ev else 0)" for c
    by (rule fixed_row_entry [OF dist f]) simp
  from b e show ?thesis by simp
qed

theorem fixed_rows_are_eigenvalue_times_identity_witness:
  "\<exists>L msk. build_laplacian two_site_mesh PyNone (NdArray [1]) None 7 = Inr (L, msk)
     \<and> nrows L = 2 \<and> ncols L = 2 \<and> entry L 1 1 = 7 \<and> entry L 1 0 = 0"
proof -
  from fixed_rows_are_eigenvalue_times_identity [of two_site_mesh PyNone "[1]" 1 7]
  obtain L msk where b: "build_laplacian two_site_mesh PyNone (NdArray [1]) None 7 = Inr (L, msk)"
    and n: "nrows L = length (mesh_x two_site_mesh)" "ncols L = length (mesh_x two_site_mesh)"
    and d: "entry L 1 1 = complex_of_real 7"
    and a: "\<forall>c. entry L 1 c = (if c = 1 then complex_of_real 7 else 0)"
    by (auto simp: two_site_mesh_def mesh_wf_def link_exponents_ok_def)
  from a have "entry L 1 0 = 0" by simp
  with b n d show ?thesis by (auto simp: two_site_mesh_def)
qed

text \<open>
  Claim C1 fails on the code. The claim, like the comment above the mask ("Exclude all edges
  connected to fixed sites"), says that a triplet whose row or column is a fixed site is
  dropped. On the two-site mesh with site 1 fixed and eigenvalue 7, \<open>build_laplacian\<close> keeps
  the two triplets of the edge from site 0 to the fixed site 1 that lie in row 0: the
  matrix has 3/2 at (0, 1), in the column of the fixed site, and -3/2 at (0, 0).
\<close>

theorem laplacian_keeps_edge_to_fixed_site:
  "build_laplacian two_site_mesh PyNone (NdArray [1]) None 7
   = Inr (\<lparr>nrows = 2, ncols = 2, triplets = [(0, 1, 3 / 2), (0, 0, - (3 / 2)), (1, 1, 7)]\<rparr>,
          [True, False, True, False])
   \<and> \<not> excludes_fixed_rows_and_columns
         \<lparr>nrows = 2, ncols = 2, triplets = [(0, 1, 3 / 2), (0, 0, - (3 / 2)), (1, 1, 7)]\<rparr> [1] 7
   \<and> entry \<lparr>nrows = 2, ncols = 2, triplets = [(0, 1, 3 / 2), (0, 0, - (3 / 2)), (1, 1, 7)]\<rparr> 0 1
     = 3 / 2
   \<and> entry \<lparr>nrows = 2, ncols = 2, triplets = [(0, 1, 3 / 2), (0, 0, - (3 / 2)), (1, 1, 7)]\<rparr> 0 0
     = - (3 / 2)"
  using two_site_laplacian_fixed1
  by (simp add: excludes_fixed_rows_and_columns_def entry_def)

lemma laplacian_entry_hermitian:
  assumes "areas m ! i \<noteq> 0" and "areas m ! j \<noteq> 0"
  shows "complex_of_real (areas m ! i) * laplacian_entry m le i j
         = cnj (complex_of_real (areas m ! j) * laplacian_entry m le j i)"
  unfolding laplacian_entry_def sum_distrib_left cnj_sum
proof (rule sum.cong [OF refl])
  fix e
  show "complex_of_real (areas m ! i) *
          ((if end0 m e = i \<and> end1 m e = j
            then complex_of_real (edge_weight m e) * link_weight m le e
                 / complex_of_real (areas m ! i)
            else 0)
           + (if end1 m e = i \<and> end0 m e = j
              then complex_of_real (edge_weight m e) * cnj (link_weight m le e)
                   / complex_of_real (areas m ! i)
              else 0)
           + (if end0 m e = i \<and> i = j
              then - complex_of_real (edge_weight m e / areas m ! i) else 0)
           + (if end1 m e = i \<and> i = j
              then - complex_of_real (edge_weight m e / areas m ! i) else 0))
        = cnj (complex_of_real (areas m ! j) *
          ((if end0 m e = j \<and> end1 m e = i
            then complex_of_real (edge_weight m e) * link_weight m le e
                 / complex_of_real (areas m ! j)
            else 0)
           + (if end1 m e = j \<and> end0 m e = i
              then complex_of_real (edge_weight m e) * cnj (link_weight m le e)
                   / complex_of_real (areas m ! j)
              else 0)
           + (if end0 m e = j \<and> j = i
              then - complex_of_real (edge_weight m e / areas m ! j) else 0)
           + (if end1 m e = j \<and> j = i
              then - complex_of_real (edge_weight m e / areas m ! j) else 0)))"
    using assms by (auto simp: field_simps)
qed

lemma laplacian_entry_real:
  "Im (laplacian_entry m PyNone i j) = 0"
  unfolding laplacian_entry_def Im_sum
  by (intro sum.neutral) (auto simp: link_weight_def)

text \<open>
  Claim C2, as amended. On a well-formed mesh without fixed sites, the Laplacian scaled by
  the site areas is Hermitian: \<open>area[i] * L[i, j]\<close> is the conjugate of
  \<open>area[j] * L[j, i]\<close>. Without link exponents every entry is real and
  \<open>area[i] * L[i, j] = area[j] * L[j, i]\<close>, so that \<open>L[i, j] = L[j, i]\<close> for two sites of
  equal area.
\<close>

theorem laplacian_area_weighted_symmetry:
  assumes wf: "mesh_wf m" and ok: "link_exponents_ok m le"
    and ai: "areas m ! i \<noteq> 0" and aj: "areas m ! j \<noteq> 0"
  shows "\<exists>L msk. build_laplacian m le PyNone None ev = Inr (L, msk)
     \<and> complex_of_real (areas m ! i) * entry L i j
         = cnj (complex_of_real (areas m ! j) * entry L j i)
     \<and> (le = PyNone \<longrightarrow>
          Im (entry L i j) = 0
          \<and> complex_of_real (areas m ! i) * entry L i j
              = complex_of_real (areas m ! j) * entry L j i
          \<and> (areas m ! i = areas m ! j \<longrightarrow> entry L i j = entry L j i))"
proof -
  let ?L = "\<lparr>nrows = length (mesh_x m), ncols = length (mesh_x m),
            triplets = filter (\<lambda>t. fst t \<notin> set []) (general_triplets m le)
                       @ map (\<lambda>f. (f, f, complex_of_real ev)) []\<rparr>"
  have b: "build_laplacian m le PyNone None ev
           = Inr (?L, map (\<lambda>r. r \<notin> set []) (laplacian_rows m))"
    using build_laplacian_wf [OF wf ok, of "[]" ev] by (simp add: build_laplacian_PyNone)
  have e: "entry ?L a c = laplacian_entry m le a c" for a c
    by (rule laplacian_entry_free_row) simp
  have h: "complex_of_real (areas m ! i) * entry ?L i j
           = cnj (complex_of_real (areas m ! j) * entry ?L j i)"
    unfolding e by (rule laplacian_entry_hermitian [OF ai aj])
  have r: "Im (entry ?L a c) = 0" if "le = PyNone" for a c
    unfolding e using that by (simp add: laplacian_entry_real)
  have s: "complex_of_real (areas m ! i) * entry ?L i j
           = complex_of_real (areas m ! j) * entry ?L j i" if "le = PyNone"
  proof -
    have "cnj (entry ?L j i) = entry ?L j i"
      using r [OF that, of j i] by (simp add: complex_eq_iff)
    with h show ?thesis by simp
  qed
  have t: "entry ?L i j = entry ?L j i" if "le = PyNone" and "areas m ! i = areas m ! j"
    using s [OF that(1)] that(2) aj by simp
  from b h r s t show ?thesis by blast
qed

theorem laplacian_area_weighted_symmetry_witness:
  "\<exists>L msk. build_laplacian two_site_mesh PyNone PyNone None 1 = Inr (L, msk)
     \<and> 1 * entry L 0 1 = 2 * entry L 1 0 \<and> Im (entry L 0 1) = 0"
  using laplacian_area_weighted_symmetry [of two_site_mesh PyNone 0 1 1]
  by (auto simp: two_site_mesh_def mesh_wf_def link_exponents_ok_def)

lemma two_site_laplacian_free:
  "build_laplacian two_site_mesh PyNone PyNone None 1
   = Inr (\<lparr>nrows = 2, ncols = 2,
           triplets = [(0, 1, 3 / 2), (1, 0, 3 / 4), (0, 0, - (3 / 2)), (1, 1, - (3 / 4))]\<rparr>,
          [True, True, True, True])"
  by (simp add: eval_defs two_site_mesh_def)

text \<open>
  Claim C2 as stated fails: on the two-site mesh, whose areas are 1 and 2, the Laplacian
  without link exponents and without fixed sites has 3/2 at (0, 1) and 3/4 at (1, 0).
\<close>

theorem laplacian_not_symmetric_counterexample:
  "build_laplacian two_site_mesh PyNone PyNone None 1
   = Inr (\<lparr>nrows = 2, ncols = 2,
           triplets = [(0, 1, 3 / 2), (1, 0, 3 / 4), (0, 0, - (3 / 2)), (1, 1, - (3 / 4))]\<rparr>,
          [True, True, True, True])
   \<and> entry \<lparr>nrows = 2, ncols = 2,
           triplets = [(0, 1, 3 / 2), (1, 0, 3 / 4), (0, 0, - (3 / 2)), (1, 1, - (3 / 4))]\<rparr> 0 1
     \<noteq> entry \<lparr>nrows = 2, ncols = 2,
           triplets = [(0, 1, 3 / 2), (1, 0, 3 / 4), (0, 0, - (3 / 2)), (1, 1, - (3 / 4))]\<rparr> 1 0"
  using two_site_laplacian_free by (simp add: entry_def)

text \<open>
  Claim C4. For every mesh, link exponents and fixed sites, \<open>build_laplacian\<close> called with
  the mask it computes itself from the fixed sites returns what it returns when called
  without a mask: the same triplets, shape and mask, or the same error. The mask it returns
  without one being passed is that mask.
\<close>

theorem supplied_free_rows_mask_gives_same_laplacian:
  "build_laplacian m le fs0 (Some (free_rows_mask m fs0)) ev = build_laplacian m le fs0 None ev
   \<and> (build_laplacian m le fs0 None ev = Inr (L, msk) \<longrightarrow>
        msk = free_rows_mask m fs0 \<and> build_laplacian m le fs0 (Some msk) ev = Inr (L, msk))"
proof -
  have eq: "build_laplacian m le fs0 (Some (free_rows_mask m fs0)) ev
            = build_laplacian m le fs0 None ev"
    by (rule build_laplacian_free_rows_mask)
  have "msk = free_rows_mask m fs0" if "build_laplacian m le fs0 None ev = Inr (L, msk)"
    using that
    by (auto simp: build_laplacian_def free_rows_mask_def Let_def ebind_def split: sum.splits)
  with eq show ?thesis by auto
qed

theorem supplied_free_rows_mask_gives_same_laplacian_witness:
  "free_rows_mask two_site_mesh (NdArray [1]) = [True, False, True, False]
   \<and> build_laplacian two_site_mesh PyNone (NdArray [1]) (Some [True, False, True, False]) 7
     = Inr (\<lparr>nrows = 2, ncols = 2, triplets = [(0, 1, 3 / 2), (0, 0, - (3 / 2)), (1, 1, 7)]\<rparr>,
            [True, False, True, False])"
  using supplied_free_rows_mask_gives_same_laplacian
          [of two_site_mesh PyNone "NdArray [1]" 7
             "\<lparr>nrows = 2, ncols = 2, triplets = [(0, 1, 3 / 2), (0, 0, - (3 / 2)), (1, 1, 7)]\<rparr>"
             "[True, False, True, False]"]
    two_site_laplacian_fixed1
  by simp

section \<open>The Neumann boundary operator\<close>

lemma build_neumann_wf:
  assumes wf: "mesh_wf m" and fs: "fixed_sites_ok m fs0"
  shows "build_neumann_boundary_laplacian m fs0 =
     Inr \<lparr>nrows = length (mesh_x m), ncols = length (boundary_edge_indices (edge_mesh m)),
          triplets = filter (\<lambda>t. \<not> is_fixed fs0 (fst t)) (neumann_triplets m)\<rparr>"
proof -
  let ?B = "length (boundary_edge_indices (edge_mesh m))"
  let ?bi = "boundary_edge_indices (edge_mesh m)"
  from wf have lens: "length (edge_lengths (edge_mesh m)) = length (edges (edge_mesh m))"
    "length (areas m) = length (mesh_x m)"
    and inr: "list_all (\<lambda>e. fst e < length (mesh_x m) \<and> snd e < length (mesh_x m)) (edges (edge_mesh m))"
    and bin: "list_all (\<lambda>k. k < length (edges (edge_mesh m))) ?bi"
    by (simp_all add: mesh_wf_def)
  have be: "take_idx (edges (edge_mesh m)) ?bi = Inr (map (\<lambda>k. edges (edge_mesh m) ! k) ?bi)"
    using bin by (simp add: take_idx_def)
  have bl: "take_idx (edge_lengths (edge_mesh m)) ?bi
            = Inr (map (\<lambda>b. edge_lengths (edge_mesh m) ! boundary_edge m b) [0..<?B])"
    using bin by (auto simp: take_idx_def lens boundary_edge_def intro!: nth_equalityI)
  have e0: "map fst (map (\<lambda>k. edges (edge_mesh m) ! k) ?bi)
            = map (\<lambda>b. end0 m (boundary_edge m b)) [0..<?B]"
    and e1: "map snd (map (\<lambda>k. edges (edge_mesh m) ! k) ?bi)
            = map (\<lambda>b. end1 m (boundary_edge m b)) [0..<?B]"
    by (auto simp: end0_def end1_def boundary_edge_def intro!: nth_equalityI)
  have c0: "list_all (\<lambda>c. c < length (mesh_x m)) (map (\<lambda>b. end0 m (boundary_edge m b)) [0..<?B])"
    and c1: "list_all (\<lambda>c. c < length (mesh_x m)) (map (\<lambda>b. end1 m (boundary_edge m b)) [0..<?B])"
    using inr bin by (simp_all add: list_all_length end0_def end1_def boundary_edge_def)
  have t0: "take_idx (areas m) (map (\<lambda>b. end0 m (boundary_edge m b)) [0..<?B])
            = Inr (map (\<lambda>b. areas m ! end0 m (boundary_edge m b)) [0..<?B])"
    and t1: "take_idx (areas m) (map (\<lambda>b. end1 m (boundary_edge m b)) [0..<?B])
            = Inr (map (\<lambda>b. areas m ! end1 m (boundary_edge m b)) [0..<?B])"
    using c0 c1 by (simp_all add: take_idx_def lens o_def)
  have built: "neumann_assembly m
        = Inr \<lparr>nrows = length (mesh_x m), ncols = ?B, triplets = neumann_triplets m\<rparr>"
    unfolding neumann_assembly_def Let_def be bl ebind_Inr e0 e1 t0 t1
    by (simp add: np_binop_same coo_matrix_def c0 c1 neumann_triplets_def Let_def
        zip_map_upt zip_upt_map map2_map_upt list_all_upt o_def)
  show ?thesis
  proof (cases fs0)
    case PyNone
    with built show ?thesis
      by (simp add: build_neumann_boundary_laplacian_def is_None_def is_fixed_def)
  next
    case (NdArray fl)
    with fs have "list_all (\<lambda>f. f < length (mesh_x m)) fl"
      by (simp add: fixed_sites_ok_def)
    with built NdArray show ?thesis
      by (simp add: build_neumann_boundary_laplacian_def is_None_def is_fixed_def)
  next
    case ZeroDimNone
    with fs show ?thesis by (simp add: fixed_sites_ok_def)
  qed
qed

text \<open>
  Claim C7. On a well-formed mesh with N sites and B boundary edges, and with fixed sites
  that are absent or sites of the mesh, \<open>build_neumann_boundary_laplacian\<close> returns an
  N by B matrix. Its column for boundary edge \<open>b\<close> holds
  \<open>boundaryEdgeLength / (2 * area[s])\<close> in the row of each endpoint \<open>s\<close> of that edge that
  is not a fixed site, and every row of a fixed site is zero in every column.
\<close>

theorem neumann_rows_split_boundary_length:
  assumes wf: "mesh_wf m" and fs: "fixed_sites_ok m fs0"
    and b: "b < length (boundary_edge_indices (edge_mesh m))"
  shows "\<exists>A. build_neumann_boundary_laplacian m fs0 = Inr A
     \<and> nrows A = length (mesh_x m) \<and> ncols A = length (boundary_edge_indices (edge_mesh m))
     \<and> entry A s b =
         (if is_fixed fs0 s then 0
          else (if end0 m (boundary_edge m b) = s
                then complex_of_real (edge_lengths (edge_mesh m) ! boundary_edge m b
                                      / (2 * areas m ! s))
                else 0)
             + (if end1 m (boundary_edge m b) = s
                then complex_of_real (edge_lengths (edge_mesh m) ! boundary_edge m b
                                      / (2 * areas m ! s))
                else 0))
     \<and> (is_fixed fs0 s \<longrightarrow> entry A s c = 0)"
proof -
  let ?B = "length (boundary_edge_indices (edge_mesh m))"
  let ?A = "\<lparr>nrows = length (mesh_x m), ncols = ?B,
            triplets = filter (\<lambda>t. \<not> is_fixed fs0 (fst t)) (neumann_triplets m)\<rparr>"
  let ?g = "\<lambda>j (t::nat \<times> nat \<times> complex). if fst t = s \<and> fst (snd t) = j then snd (snd t) else 0"
  have built: "build_neumann_boundary_laplacian m fs0 = Inr ?A"
    by (rule build_neumann_wf [OF wf fs])
  have fixed0: "entry ?A s j = 0" if "is_fixed fs0 s" for j
    unfolding entry_sum using that by (intro sum_list_all_zero) auto
  have free: "entry ?A s b =
           (if end0 m (boundary_edge m b) = s
                then complex_of_real (edge_lengths (edge_mesh m) ! boundary_edge m b
                                      / (2 * areas m ! s))
                else 0)
             + (if end1 m (boundary_edge m b) = s
                then complex_of_real (edge_lengths (edge_mesh m) ! boundary_edge m b
                                      / (2 * areas m ! s))
                else 0)" if nf: "\<not> is_fixed fs0 s"
  proof -
    have "entry ?A s b = sum_list (map (?g b) (neumann_triplets m))"
      unfolding entry_sum using nf by (simp, intro sum_list_filter_irrelevant) auto
    also have "\<dots> = (\<Sum>k = 0..<?B. if end0 m (boundary_edge m k) = s \<and> k = b
                 then complex_of_real (edge_lengths (edge_mesh m) ! boundary_edge m k
                                      / (2 * areas m ! end0 m (boundary_edge m k))) else 0)
             + (\<Sum>k = 0..<?B. if end1 m (boundary_edge m k) = s \<and> k = b
                 then complex_of_real (edge_lengths (edge_mesh m) ! boundary_edge m k
                                      / (2 * areas m ! end1 m (boundary_edge m k))) else 0)"
      by (simp add: neumann_triplets_def Let_def o_def sum_list_upt_sum cong: if_cong)
    also have "(\<Sum>k = 0..<?B. if end0 m (boundary_edge m k) = s \<and> k = b
                 then complex_of_real (edge_lengths (edge_mesh m) ! boundary_edge m k
                                      / (2 * areas m ! end0 m (boundary_edge m k))) else 0)
          = (\<Sum>k = 0..<?B. if k = b then
               (if end0 m (boundary_edge m b) = s
                then complex_of_real (edge_lengths (edge_mesh m) ! boundary_edge m b
                                      / (2 * areas m ! s)) else 0) else 0)"
      by (intro sum.cong refl) auto
    also have "(\<Sum>k = 0..<?B. if end1 m (boundary_edge m k) = s \<and> k = b
                 then complex_of_real (edge_lengths (edge_mesh m) ! boundary_edge m k
                                      / (2 * areas m ! end1 m (boundary_edge m k))) else 0)
          = (\<Sum>k = 0..<?B. if k = b then
               (if end1 m (boundary_edge m b) = s
                then complex_of_real (edge_lengths (edge_mesh m) ! boundary_edge m b
                                      / (2 * areas m ! s)) else 0) else 0)"
      by (intro sum.cong refl) auto
    finally show ?thesis using b by simp
  qed
  from built fixed0 free show ?thesis by simp
qed

theorem neumann_rows_split_boundary_length_witness:
  "\<exists>A. build_neumann_boundary_laplacian two_site_mesh (NdArray [1]) = Inr A
     \<and> nrows A = 2 \<and> ncols A = 1 \<and> entry A 0 0 = 1 \<and> entry A 1 0 = 0"
  using neumann_rows_split_boundary_length [of two_site_mesh "NdArray [1]" 0 0 0]
    neumann_rows_split_boundary_length [of two_site_mesh "NdArray [1]" 0 1 0]
  by (auto simp: two_site_mesh_def mesh_wf_def fixed_sites_ok_def is_fixed_def end0_def end1_def
      boundary_edge_def numeral_2_eq_2)

section \<open>The builder\<close>

lemma unknown_matrix_type_inject [simp]:
  "unknown_matrix_type r = unknown_matrix_type r' \<longleftrightarrow> r = r'"
  by (simp add: unknown_matrix_type_def)

lemma ebind_neq:
  "r \<noteq> Inl e \<Longrightarrow> (\<And>v. f v \<noteq> Inl e) \<Longrightarrow> ebind r f \<noteq> Inl e"
  by (cases r) auto

lemma np_binop_known: "np_binop f xs ys \<noteq> Inl (unknown_matrix_type r)"
  by (simp add: np_binop_def unknown_matrix_type_def)

lemma take_idx_known: "take_idx xs idx \<noteq> Inl (unknown_matrix_type r)"
  by (simp add: take_idx_def unknown_matrix_type_def)

lemma mask_select_known: "mask_select xs msk \<noteq> Inl (unknown_matrix_type r)"
  by (simp add: mask_select_def unknown_matrix_type_def)

lemma coo_matrix_known: "coo_matrix vs rs cs n n' \<noteq> Inl (unknown_matrix_type r)"
  by (simp add: coo_matrix_def unknown_matrix_type_def)

lemma sparse_values_known: "sparse_values le vs rs cs n n' \<noteq> Inl (unknown_matrix_type r)"
  by (simp add: sparse_values_def coo_matrix_known) (simp add: unknown_matrix_type_def)

lemma concat_fixed_known: "concat_fixed xs fs \<noteq> Inl (unknown_matrix_type r)"
  by (cases fs) (simp_all add: unknown_matrix_type_def)

lemma fixed_diagonal_known: "fixed_diagonal ev fs \<noteq> Inl (unknown_matrix_type r)"
  by (cases fs) (simp_all add: unknown_matrix_type_def)

lemma zero_rows_known: "zero_rows A fs \<noteq> Inl (unknown_matrix_type r)"
  by (cases fs) (simp_all add: unknown_matrix_type_def)

lemma link_variable_weights_known:
  "link_variable_weights em le n \<noteq> Inl (unknown_matrix_type r)"
proof (cases le)
  case PyNone
  then show ?thesis by (simp add: link_variable_weights_def)
next
  case (NdArray l)
  have "ebind (np_binop (\<lambda>a d. (fst a * fst d, snd a * snd d)) l (directions em))
          (\<lambda>prods. Inr (map (\<lambda>p. exp (- \<i> * complex_of_real (fst p + snd p))) prods))
        \<noteq> Inl (unknown_matrix_type r)"
    by (intro ebind_neq np_binop_known) simp
  with NdArray show ?thesis by (simp add: link_variable_weights_def)
next
  case ZeroDimNone
  then show ?thesis by (simp add: link_variable_weights_def unknown_matrix_type_def)
qed

lemmas known_errors =
  np_binop_known take_idx_known mask_select_known coo_matrix_known sparse_values_known
  concat_fixed_known
  fixed_diagonal_known zero_rows_known link_variable_weights_known

lemma build_divergence_known: "build_divergence m \<noteq> Inl (unknown_matrix_type r)"
  unfolding build_divergence_def Let_def
  by (intro ebind_neq known_errors)

lemma build_gradient_known: "build_gradient m le \<noteq> Inl (unknown_matrix_type r)"
  unfolding build_gradient_def Let_def
  by (intro ebind_neq known_errors)

lemma laplacian_values_known: "laplacian_values m le \<noteq> Inl (unknown_matrix_type r)"
  unfolding laplacian_values_def Let_def
  by (intro ebind_neq known_errors) simp

lemma build_laplacian_known: "build_laplacian m le fs fr ev \<noteq> Inl (unknown_matrix_type r)"
  unfolding build_laplacian_def Let_def
  by (intro ebind_neq known_errors laplacian_values_known) simp

lemma neumann_assembly_known: "neumann_assembly m \<noteq> Inl (unknown_matrix_type r)"
  unfolding neumann_assembly_def Let_def
  by (intro ebind_neq known_errors)

lemma build_neumann_known:
  "build_neumann_boundary_laplacian m fs \<noteq> Inl (unknown_matrix_type r)"
  unfolding build_neumann_boundary_laplacian_def
  by (intro ebind_neq neumann_assembly_known) (simp add: zero_rows_known)

lemma build_laplacian_total:
  assumes wf: "mesh_wf m" and ok: "link_exponents_ok m le"
    and fs: "fixed_sites_ok m fs0" and fr: "free_rows_ok m fr"
  shows "\<exists>L msk. build_laplacian m le fs0 fr ev = Inr (L, msk)"
proof -
  obtain fl where fl: "build_laplacian m le fs0 fr ev = build_laplacian m le (NdArray fl) fr ev"
    and inr: "list_all (\<lambda>f. f < length (mesh_x m)) fl"
  proof (cases fs0)
    case PyNone
    show ?thesis
      by (rule that [of "[]"]) (simp_all add: PyNone build_laplacian_def is_None_def)
  next
    case (NdArray l)
    with fs show ?thesis by (intro that [of l]) (simp_all add: fixed_sites_ok_def)
  next
    case ZeroDimNone
    with fs show ?thesis by (simp add: fixed_sites_ok_def)
  qed
  show ?thesis
  proof (cases fr)
    case None
    with build_laplacian_wf [OF wf ok inr, of ev] fl show ?thesis by simp
  next
    case (Some msk)
    with fr have "length msk = length (laplacian_rows m)"
      by (simp add: free_rows_ok_def laplacian_rows_length)
    from build_laplacian_wf_mask [OF wf ok inr this, of ev] fl Some show ?thesis by simp
  qed
qed

text \<open>
  Claim C8, as amended. For every builder state, \<open>build\<close> raises the ValueError
  "Unknown matrix type" exactly when the requested kind is outside the four kinds of the
  enumeration. For each of the four kinds, on a well-formed mesh and with well-formed link
  exponents, fixed sites and free-row mask, \<open>build\<close> returns an operator.
\<close>

theorem build_fails_only_on_unknown_kind:
  "(build b mt fr = Inl (unknown_matrix_type r) \<longleftrightarrow> mt = OtherValue r)
   \<and> (builder_ok b fr \<and> mt \<in> {LAPLACIAN, NEUMANN_BOUNDARY_LAPLACIAN, DIVERGENCE, GRADIENT}
        \<longrightarrow> (\<exists>A. build b mt fr = Inr A))"
proof -
  have iff: "build b mt fr = Inl (unknown_matrix_type r) \<longleftrightarrow> mt = OtherValue r"
  proof (cases mt)
    case LAPLACIAN
    then show ?thesis by (simp add: ebind_neq build_laplacian_known)
  next
    case NEUMANN_BOUNDARY_LAPLACIAN
    then show ?thesis by (simp add: ebind_neq build_neumann_known)
  next
    case DIVERGENCE
    then show ?thesis by (simp add: ebind_neq build_divergence_known)
  next
    case GRADIENT
    then show ?thesis by (simp add: ebind_neq build_gradient_known)
  next
    case (OtherValue x)
    then show ?thesis by simp
  qed
  have total: "\<exists>A. build b mt fr = Inr A"
    if ok: "builder_ok b fr"
      and mt: "mt \<in> {LAPLACIAN, NEUMANN_BOUNDARY_LAPLACIAN, DIVERGENCE, GRADIENT}"
  proof -
    from ok have wf: "mesh_wf (mesh_of b)"
      and le: "link_exponents_ok (mesh_of b) (link_exponents b)"
      and fs: "fixed_sites_ok (mesh_of b) (fixed_sites b)"
      and fro: "free_rows_ok (mesh_of b) fr"
      by (simp_all add: builder_ok_def)
    from mt consider "mt = LAPLACIAN" | "mt = NEUMANN_BOUNDARY_LAPLACIAN"
      | "mt = DIVERGENCE" | "mt = GRADIENT"
      by auto
    then show ?thesis
    proof cases
      case 1
      from build_laplacian_total [OF wf le fs fro, of "fixed_sites_eigenvalue b"]
      show ?thesis using 1 by auto
    next
      case 2
      then show ?thesis by (simp add: build_neumann_wf [OF wf fs])
    next
      case 3
      then show ?thesis by (simp add: build_divergence_wf [OF wf])
    next
      case 4
      then show ?thesis by (simp add: build_gradient_wf [OF wf le])
    qed
  qed
  from iff total show ?thesis by blast
qed

theorem build_fails_only_on_unknown_kind_witness:
  "build (MatrixBuilder two_site_mesh) (OtherValue ''42'') None = Inl (unknown_matrix_type ''42'')
   \<and> (\<exists>A. build (with_dirichlet_boundary (MatrixBuilder two_site_mesh) [1] 7) LAPLACIAN
              (Some [True, False, True, False]) = Inr A)"
  using build_fails_only_on_unknown_kind
          [of "MatrixBuilder two_site_mesh" "OtherValue ''42''" None "''42''"]
    build_fails_only_on_unknown_kind
          [of "with_dirichlet_boundary (MatrixBuilder two_site_mesh) [1] 7" LAPLACIAN
              "Some [True, False, True, False]"]
  by (simp add: builder_ok_def MatrixBuilder_def with_dirichlet_boundary_def two_site_mesh_def
      mesh_wf_def link_exponents_ok_def fixed_sites_ok_def free_rows_ok_def)

text \<open>
  Claim C8 as stated fails: on the well-formed two-site mesh, a builder whose fixed site 2
  is not a site of the mesh raises a ValueError for the kind \<open>LAPLACIAN\<close>.
\<close>

theorem build_fails_on_fixed_site_outside_mesh_counterexample:
  "mesh_wf two_site_mesh
   \<and> build (with_dirichlet_boundary (MatrixBuilder two_site_mesh) [2] 1) LAPLACIAN None
     = Inl (ValueError ''row index exceeds matrix dimensions'')"
  by (simp add: eval_defs MatrixBuilder_def with_dirichlet_boundary_def two_site_mesh_def
      mesh_wf_def)

text \<open>
  Claim C9 fails on the code. A builder on the two-site mesh that was never configured
  builds the gradient and the Laplacian; its clone raises a TypeError for both kinds.
\<close>

theorem clone_of_default_builder_cannot_build:
  "build (MatrixBuilder two_site_mesh) GRADIENT None
     = Inr (Matrix \<lparr>nrows = 1, ncols = 2, triplets = [(0, 1, 1 / 2), (0, 0, - (1 / 2))]\<rparr>)
   \<and> build (clone (MatrixBuilder two_site_mesh)) GRADIENT None = Inl TypeError
   \<and> build (MatrixBuilder two_site_mesh) LAPLACIAN None
     = Inr (LaplacianAndMask
          \<lparr>nrows = 2, ncols = 2,
           triplets = [(0, 1, 3 / 2), (1, 0, 3 / 4), (0, 0, - (3 / 2)), (1, 1, - (3 / 4))]\<rparr>
          [True, True, True, True])
   \<and> build (clone (MatrixBuilder two_site_mesh)) LAPLACIAN None = Inl TypeError"
  by (simp add: eval_defs MatrixBuilder_def clone_def two_site_mesh_def)

text \<open>
  When both the fixed sites and the link exponents are arrays, the clone equals the
  original.
\<close>

lemma clone_of_configured_builder:
  "fixed_sites b = NdArray fs \<Longrightarrow> link_exponents b = NdArray le \<Longrightarrow> clone b = b"
  by (simp add: clone_def)

text \<open>
  Claim C10. When \<open>clone\<close> is called on a builder whose fixed sites are \<^verbatim>\<open>None\<close>, the
  clone's fixed sites are the zero-dimensional object array and not \<^verbatim>\<open>None\<close>; the same
  holds for the link exponents. The link weights of the original are then all one (the
  branch for \<^verbatim>\<open>None\<close>), while for the clone, on a mesh with at least one edge direction,
  the other branch is taken and raises a TypeError, in \<open>build_gradient\<close> and (once the
  edge weights are computed) in \<open>build_laplacian\<close> too.
\<close>

theorem clone_turns_None_into_zero_dim_array:
  "(is_None (fixed_sites b) \<longrightarrow>
      fixed_sites (clone b) = ZeroDimNone \<and> \<not> is_None (fixed_sites (clone b)))
   \<and> (is_None (link_exponents b) \<longrightarrow>
      link_exponents (clone b) = ZeroDimNone \<and> \<not> is_None (link_exponents (clone b))
      \<and> link_variable_weights (edge_mesh (mesh_of b)) (link_exponents b) n = Inr (replicate n 1)
      \<and> (directions (edge_mesh (mesh_of b)) \<noteq> [] \<longrightarrow>
           link_variable_weights (edge_mesh (mesh_of b)) (link_exponents (clone b)) n
             = Inl TypeError
           \<and> build_gradient (mesh_of b) (link_exponents (clone b)) = Inl TypeError
           \<and> (length (dual_edge_lengths (edge_mesh (mesh_of b)))
                 = length (edge_lengths (edge_mesh (mesh_of b))) \<longrightarrow>
                build_laplacian (mesh_of b) (link_exponents (clone b)) fs fr ev
                  = Inl TypeError)))"
proof -
  have fs: "fixed_sites (clone b) = ZeroDimNone" if "is_None (fixed_sites b)"
    using that by (cases "fixed_sites b") (simp_all add: clone_def is_None_def)
  have le: "link_exponents (clone b) = ZeroDimNone" and le0: "link_exponents b = PyNone"
    if "is_None (link_exponents b)"
    using that by (cases "link_exponents b"; simp add: clone_def is_None_def)+
  show ?thesis
    using fs le le0
    by (auto simp: is_None_def link_variable_weights_def build_gradient_def build_laplacian_def
        laplacian_values_def np_binop_same Let_def)
qed

theorem clone_turns_None_into_zero_dim_array_witness:
  "fixed_sites (clone (MatrixBuilder two_site_mesh)) = ZeroDimNone
   \<and> link_exponents (clone (MatrixBuilder two_site_mesh)) = ZeroDimNone
   \<and> build_gradient two_site_mesh (link_exponents (clone (MatrixBuilder two_site_mesh)))
     = Inl TypeError"
proof -
  have h: "is_None (fixed_sites (MatrixBuilder two_site_mesh))"
    "is_None (link_exponents (MatrixBuilder two_site_mesh))"
    "directions (edge_mesh (mesh_of (MatrixBuilder two_site_mesh))) \<noteq> []"
    and m: "mesh_of (MatrixBuilder two_site_mesh) = two_site_mesh"
    by (simp_all add: MatrixBuilder_def is_None_def two_site_mesh_def)
  from clone_turns_None_into_zero_dim_array [of "MatrixBuilder two_site_mesh" 1] h
  have "fixed_sites (clone (MatrixBuilder two_site_mesh)) = ZeroDimNone
     \<and> link_exponents (clone (MatrixBuilder two_site_mesh)) = ZeroDimNone
     \<and> build_gradient (mesh_of (MatrixBuilder two_site_mesh))
          (link_exponents (clone (MatrixBuilder two_site_mesh))) = Inl TypeError"
    by blast
  then show ?thesis unfolding m .
qed

end
